theory Spec2Isabelle
  imports Complex_Main "HOL-Library.Sublist"
begin

section \<open>Python values\<close>

text \<open>
  A Python \<open>str\<close> is a sequence of Unicode code points; it is modelled as a list of
  natural numbers. ASCII literals of the source are written with \<open>u\<close>.
\<close>

type_synonym ustr = "nat list"

definition u :: "string \<Rightarrow> ustr" where
  "u s = map of_char s"

text \<open>
  The JSON-like values that flow through request data, payloads and tool results.
  A Python \<open>float\<close> is read as the rational number it denotes; a \<open>dict\<close> keeps its
  insertion order.
\<close>

datatype pyval =
    PNone
  | PBool bool
  | PInt int
  | PFloat rat
  | PStr ustr
  | PList "pyval list"
  | PDict "(ustr \<times> pyval) list"

type_synonym pydict = "(ustr \<times> pyval) list"

datatype py_exn = KeyError | ValueError | TypeError | AttributeError | HandlerError ustr

text \<open>\<open>d.get(k)\<close> on a dict: the value, or nothing when the key is absent.\<close>

definition dget :: "pydict \<Rightarrow> ustr \<Rightarrow> pyval option" where
  "dget d k = map_of d k"

text \<open>\<open>d[k] = v\<close>: an existing key keeps its position, a new key goes last.\<close>

fun dset :: "'k \<Rightarrow> 'v \<Rightarrow> ('k \<times> 'v) list \<Rightarrow> ('k \<times> 'v) list" where
  "dset k v [] = [(k, v)]"
| "dset k v ((k', v') # d) = (if k' = k then (k, v) # d else (k', v') # dset k v d)"

text \<open>\<open>{**a, **b}\<close> and \<open>a.update(b)\<close>.\<close>

definition dupdate :: "pydict \<Rightarrow> pydict \<Rightarrow> pydict" where
  "dupdate a b = fold (\<lambda>(k, v). dset k v) b a"

text \<open>\<open>x.get(k, default)\<close> on an arbitrary value: only a dict has \<open>get\<close>.\<close>

definition attr_get :: "pyval \<Rightarrow> ustr \<Rightarrow> pyval \<Rightarrow> py_exn + pyval" where
  "attr_get x k dflt =
     (case x of
        PDict d \<Rightarrow> Inr (case dget d k of None \<Rightarrow> dflt | Some v \<Rightarrow> v)
      | _ \<Rightarrow> Inl AttributeError)"

text \<open>Truthiness, as tested by \<open>if x\<close>, \<open>x or y\<close> and \<open>bool(x)\<close>.\<close>

fun truthy :: "pyval \<Rightarrow> bool" where
  "truthy PNone = False"
| "truthy (PBool b) = b"
| "truthy (PInt i) = (i \<noteq> 0)"
| "truthy (PFloat r) = (r \<noteq> 0)"
| "truthy (PStr s) = (s \<noteq> [])"
| "truthy (PList xs) = (xs \<noteq> [])"
| "truthy (PDict d) = (d \<noteq> [])"

section \<open>Tool registry (core/registry.py)\<close>

text \<open>
  A handler is an external collaborator: it receives a payload, may touch the outside
  world \<open>'w\<close>, and either returns a value or raises.
\<close>

type_synonym 'w handler = "pydict \<Rightarrow> 'w \<Rightarrow> (py_exn + pyval) \<times> 'w"

record 'w handlers =
  f1_run :: "'w handler"
  llm_run :: "'w handler"
  f2_run :: "'w handler"
  f3_run :: "'w handler"

definition REGISTRY :: "'w handlers \<Rightarrow> (ustr \<times> 'w handler) list" where
  "REGISTRY hs =
     [(u ''f1'', f1_run hs), (u ''llm'', llm_run hs), (u ''f2'', f2_run hs), (u ''f3'', f3_run hs)]"

definition dispatch :: "'w handlers \<Rightarrow> ustr \<Rightarrow> pydict \<Rightarrow> 'w \<Rightarrow> (py_exn + pyval) \<times> 'w" where
  "dispatch hs target payload w =
     (case map_of (REGISTRY hs) target of
        None \<Rightarrow>
          (Inr (PDict [(u ''error'', PStr (u ''unknown feature: '' @ target)),
                       (u ''items'', PList [])]), w)
      | Some handler \<Rightarrow> handler payload w)"

section \<open>Signal detection (router/intent_router.py)\<close>

text \<open>
  \<open>re.search(p, q)\<close> looks for the leftmost position of \<open>q\<close> at which \<open>p\<close> matches;
  \<open>re_search P q\<close> says that some suffix of \<open>q\<close> starts with a match, \<open>P\<close> being the
  test "the pattern matches at the head of this text".
\<close>

fun re_search :: "(ustr \<Rightarrow> bool) \<Rightarrow> ustr \<Rightarrow> bool" where
  "re_search P [] = P []"
| "re_search P (c # cs) = (P (c # cs) \<or> re_search P cs)"

text \<open>An alternation of literal words, \<open>(w1|w2|...)\<close>, matched at the head of a text.\<close>

definition alt_at :: "ustr list \<Rightarrow> ustr \<Rightarrow> bool" where
  "alt_at ws t = list_ex (\<lambda>w. prefix w t) ws"

definition search_any :: "ustr list \<Rightarrow> ustr \<Rightarrow> bool" where
  "search_any ws q = re_search (alt_at ws) q"

text \<open>The word lists of the patterns, as code points.\<close>

definition TIME_WORDS :: "ustr list" where
  "TIME_WORDS = [[20170, 22825], [26126, 22825], [21518, 22825], [29616, 22312],
     [26412, 21608], [26412, 26376]]"

definition WEATHER_HINT :: "ustr list" where
  "WEATHER_HINT = [[22825, 27668], [27668, 28201], [28201, 24230], [19979, 38632],
     [38477, 38632], [26228], [38452], [22810, 20113], [21488, 39118],
     [31354, 27668, 36136, 37327]]"

definition NEWS_PRICE :: "ustr list" where
  "NEWS_PRICE = [[26032, 38395], [20215, 26684], [21457, 24067], [26368, 26032]]"

definition KB_HINT :: "ustr list" where
  "KB_HINT = [[30693, 35782, 24211], [25991, 26723], [25991, 20214], [36164, 26009],
     [25253, 21578], [25163, 20876], [35828, 26126, 20070], [26041, 26696], [24635, 32467],
     [25945, 31243], [31508, 35760]]"

definition GEN_HINT :: "ustr list" where
  "GEN_HINT = [[20889], [30701, 35799], [35799], [25925, 20107], [32493, 20889],
     [28070, 33394], [25688, 35201], [24635, 32467], [27010, 25324], [23450, 20041],
     [35299, 37322], [25512, 33616], [24314, 35758], [22914, 20309], [24590, 20040],
     [19968, 21477, 35805], [30701, 25991], [35780, 35770], [28857, 35780], [25991, 26696],
     [21475, 25773], [23545, 32852], [25171, 27833, 35799]]"

definition GREET_WORDS :: "ustr list" where
  "GREET_WORDS = [[20320, 22909], [24744, 22909], [21704, 21949], [21992], [104, 105],
     [104, 101, 108, 108, 111], [104, 101, 121], [26089, 19978, 22909],
     [20013, 21320, 22909], [19979, 21320, 22909], [26202, 19978, 22909]]"

definition MATH_WORDS :: "ustr list" where
  "MATH_WORDS = [[35745, 31639], [27714, 20540], [27714, 26368, 20540], [27714, 21644],
     [26041, 31243], [35299, 26041, 31243], [31215, 20998], [24494, 20998], [23548, 25968],
     [26497, 38480], [25490, 21015], [32452, 21512], [27010, 29575], [26041, 24046],
     [26631, 20934, 24046], [30697, 38453], [34892, 21015, 24335], [29305, 24449, 20540],
     [38454, 20056]]"

text \<open>
  \<open>\d\<close> on a \<open>str\<close> pattern is the Unicode category Nd. The table lists the first code
  point and the length of each run of decimal digits (Unicode 14.0, the database of
  CPython 3.11).
\<close>

definition ND_RANGES :: "(nat \<times> nat) list" where
  "ND_RANGES = [(48, 10), (1632, 10), (1776, 10), (1984, 10), (2406, 10), (2534, 10),
     (2662, 10), (2790, 10), (2918, 10), (3046, 10), (3174, 10), (3302, 10), (3430, 10),
     (3558, 10), (3664, 10), (3792, 10), (3872, 10), (4160, 10), (4240, 10), (6112, 10),
     (6160, 10), (6470, 10), (6608, 10), (6784, 10), (6800, 10), (6992, 10), (7088, 10),
     (7232, 10), (7248, 10), (42528, 10), (43216, 10), (43264, 10), (43472, 10), (43504, 10),
     (43600, 10), (44016, 10), (65296, 10), (66720, 10), (68912, 10), (69734, 10),
     (69872, 10), (69942, 10), (70096, 10), (70384, 10), (70736, 10), (70864, 10),
     (71248, 10), (71360, 10), (71472, 10), (71904, 10), (72016, 10), (72784, 10),
     (73040, 10), (73120, 10), (92768, 10), (92864, 10), (93008, 10), (120782, 50),
     (123200, 10), (123632, 10), (125264, 10), (130032, 10)]"

definition is_digit :: "nat \<Rightarrow> bool" where
  "is_digit c = list_ex (\<lambda>(s, n). s \<le> c \<and> c < s + n) ND_RANGES"

text \<open>The class \<open>[\d\)\(\+\-\*/\^=]\<close>.\<close>

definition math_char :: "nat \<Rightarrow> bool" where
  "math_char c = (is_digit c \<or> c \<in> set [41, 40, 43, 45, 42, 47, 94, 61])"

text \<open>\<open>[...]{3,}\<close> is found exactly when three neighbouring characters are in the class.\<close>

fun has_run3 :: "(nat \<Rightarrow> bool) \<Rightarrow> ustr \<Rightarrow> bool" where
  "has_run3 P (a # b # c # cs) = ((P a \<and> P b \<and> P c) \<or> has_run3 P (b # c # cs))"
| "has_run3 P cs = False"

definition web_signal :: "ustr \<Rightarrow> bool" where
  "web_signal q = (search_any TIME_WORDS q \<or> search_any WEATHER_HINT q \<or> search_any NEWS_PRICE q)"

definition math_signal :: "ustr \<Rightarrow> bool" where
  "math_signal q = (search_any MATH_WORDS q \<or> has_run3 math_char q)"

definition prefer_llm :: "ustr \<Rightarrow> bool" where
  "prefer_llm q =
     (let gen = search_any GEN_HINT q;
          web = (search_any TIME_WORDS q \<or> search_any WEATHER_HINT q \<or> search_any NEWS_PRICE q);
          math = (search_any MATH_WORDS q \<or> has_run3 math_char q)
      in gen \<and> \<not> web \<and> \<not> math)"

text \<open>
  Whitespace, as \<open>str.strip()\<close> and \<open>\s\<close> see it (\<open>str.isspace\<close>).
\<close>

definition SPACES :: "nat list" where
  "SPACES = [9, 10, 11, 12, 13, 28, 29, 30, 31, 32, 133, 160, 5760, 8192, 8193,
     8194, 8195, 8196, 8197, 8198, 8199, 8200, 8201, 8202, 8232, 8233, 8239, 8287, 12288]"

definition is_space :: "nat \<Rightarrow> bool" where
  "is_space c = (c \<in> set SPACES)"

definition strip :: "ustr \<Rightarrow> ustr" where
  "strip s = rev (dropWhile is_space (rev (dropWhile is_space s)))"

text \<open>
  \<open>re.IGNORECASE\<close>: the text characters that a pattern character matches. Of the
  characters of \<open>GREET_HINT\<close> only the Latin letters have other case forms; \<open>i\<close> also
  matches U+0130 and U+0131.
\<close>

definition case_forms :: "nat \<Rightarrow> nat list" where
  "case_forms p =
     (if p = 104 then [104, 72]
      else if p = 105 then [105, 73, 304, 305]
      else if p = 101 then [101, 69]
      else if p = 108 then [108, 76]
      else if p = 111 then [111, 79]
      else if p = 121 then [121, 89]
      else [p])"

definition ci_match :: "nat \<Rightarrow> nat \<Rightarrow> bool" where
  "ci_match p c = (c \<in> set (case_forms p))"

definition ci_prefix :: "ustr \<Rightarrow> ustr \<Rightarrow> bool" where
  "ci_prefix w t = (length w \<le> length t \<and> list_all2 ci_match w (take (length w) t))"

text \<open>The class \<open>[\<dots>!\<dots>\.\s]\<close> that may follow a greeting: U+FF01, \<open>!\<close>, U+3002, \<open>.\<close>, whitespace.\<close>

definition GREET_PUNCT :: "nat list" where
  "GREET_PUNCT = [65281, 33, 12290, 46]"

definition greet_tail_char :: "nat \<Rightarrow> bool" where
  "greet_tail_char c = (c \<in> set GREET_PUNCT \<or> is_space c)"

text \<open>
  \<open>re.match(GREET_HINT, q.strip(), flags=re.IGNORECASE)\<close>: a greeting word at the start,
  then only characters of the class up to the end. (\<open>$\<close> also accepts a position before a
  final newline, which the class would have consumed, being whitespace.)
\<close>

definition is_greet :: "ustr \<Rightarrow> bool" where
  "is_greet q =
     (let s = strip q
      in list_ex (\<lambda>w. ci_prefix w s \<and> list_all greet_tail_char (drop (length w) s)) GREET_WORDS)"

definition is_short_query :: "ustr \<Rightarrow> bool" where
  "is_short_query q = (length (strip q) \<le> 6)"

section \<open>Slot extraction\<close>

text \<open>The leftmost match of an alternation, and which alternative it was (\<open>group(1)\<close>).\<close>

fun first_word :: "ustr list \<Rightarrow> ustr \<Rightarrow> ustr option" where
  "first_word ws [] = find (\<lambda>w. prefix w []) ws"
| "first_word ws (c # cs) =
     (case find (\<lambda>w. prefix w (c # cs)) ws of
        Some w \<Rightarrow> Some w
      | None \<Rightarrow> first_word ws cs)"

text \<open>The leftmost position at which a capturing match succeeds.\<close>

fun first_capture :: "(ustr \<Rightarrow> ustr option) \<Rightarrow> ustr \<Rightarrow> ustr option" where
  "first_capture f [] = f []"
| "first_capture f (c # cs) =
     (case f (c # cs) of
        Some g \<Rightarrow> Some g
      | None \<Rightarrow> first_capture f cs)"

definition is_cjk :: "nat \<Rightarrow> bool" where
  "is_cjk c = (19968 \<le> c \<and> c \<le> 40869)"

definition ADMIN_SUFFIX :: "ustr list" where
  "ADMIN_SUFFIX = [[24066], [30465], [21306], [21439]]"

definition WEATHER_TAIL :: "ustr list" where
  "WEATHER_TAIL = [[22825, 27668], [27668, 28201], [28201, 24230]]"

text \<open>An optional group \<open>(?:w1|w2|...)?\<close> followed by the rest \<open>k\<close> of the pattern.\<close>

definition opt_then :: "ustr list \<Rightarrow> (ustr \<Rightarrow> bool) \<Rightarrow> ustr \<Rightarrow> bool" where
  "opt_then ws k t = (list_ex (\<lambda>w. prefix w t \<and> k (drop (length w) t)) ws \<or> k t)"

text \<open>
  \<open>([\<dots>]{2,8})\<close> is greedy: the longest run of 8 down to 2 ideographs after which the
  rest of the pattern still matches.
\<close>

definition cjk_run :: "(ustr \<Rightarrow> bool) \<Rightarrow> ustr \<Rightarrow> nat option" where
  "cjk_run k t =
     find (\<lambda>n. n \<le> length t \<and> list_all is_cjk (take n t) \<and> k (drop n t)) [8, 7, 6, 5, 4, 3, 2]"

definition loc_weather_at :: "ustr \<Rightarrow> ustr option" where
  "loc_weather_at t =
     map_option (\<lambda>n. take n t)
       (cjk_run (opt_then ADMIN_SUFFIX (opt_then [[30340]] (alt_at WEATHER_TAIL))) t)"

definition loc_admin_at :: "ustr \<Rightarrow> ustr option" where
  "loc_admin_at t = map_option (\<lambda>n. take (n + 1) t) (cjk_run (alt_at ADMIN_SUFFIX) t)"

definition extract_slots :: "ustr \<Rightarrow> pydict" where
  "extract_slots q =
     (let slots = [];
          slots = (case first_word TIME_WORDS q of
                     Some w \<Rightarrow> dset (u ''when'') (PStr w) slots
                   | None \<Rightarrow> slots);
          slots = (case first_capture loc_weather_at q of
                     None \<Rightarrow> (case first_capture loc_admin_at q of
                                Some g \<Rightarrow> dset (u ''location'') (PStr g) slots
                              | None \<Rightarrow> slots)
                   | Some g \<Rightarrow> dset (u ''location'') (PStr g) slots)
      in dset (u ''provider'') (PStr (u ''metaso'')) slots)"

section \<open>Decisions and suggestions\<close>

text \<open>
  A plan step, as \<open>_llm_route\<close> and \<open>route\<close> build it: a dict with exactly these keys.
\<close>

record segment =
  s_id :: "ustr option"
  s_q :: ustr
  s_tool :: ustr
  s_confidence :: rat
  s_reasons :: "ustr list"
  s_needs_context :: bool
  s_q_template :: ustr

text \<open>
  The routing decision: a dict with the keys target, confidence, reasons, slots and,
  only when a plan was attached, plan.
\<close>

record decision =
  d_target :: ustr
  d_confidence :: rat
  d_reasons :: "ustr list"
  d_slots :: pydict
  d_plan :: "segment list option"

text \<open>What \<open>_llm_route\<close> returns when it does not return \<open>None\<close>.\<close>

datatype suggestion =
    Single ustr rat "ustr list"
  | Multi "segment list" rat "ustr list"

text \<open>
  The object decoded from the model's JSON answer, each key optional, its value of the
  type the suggestion shape gives it.
\<close>

record raw_segment =
  r_id :: "ustr option"
  r_q :: "ustr option"
  r_tool :: "ustr option"
  r_confidence :: "rat option"
  r_reasons :: "ustr list option"
  r_needs_context :: "bool option"
  r_q_template :: "ustr option"

record raw_suggestion =
  o_mode :: "ustr option"
  o_segments :: "raw_segment list option"
  o_target :: "ustr option"
  o_confidence :: "rat option"
  o_reasons :: "ustr list option"

text \<open>
  \<open>str.lower()\<close>. Its results are only compared with the ASCII words \<open>multi\<close>,
  \<open>f1\<close>, \<open>f2\<close>, \<open>f3\<close> and \<open>llm\<close>, and no code point outside \<open>A\<close>-\<open>Z\<close>
  lowers to a letter of these words, so the ASCII letters are all that is mapped.
\<close>

definition lower :: "ustr \<Rightarrow> ustr" where
  "lower s = map (\<lambda>c. if 65 \<le> c \<and> c \<le> 90 then c + 32 else c) s"

text \<open>The decimal digits of a number, for \<open>f"s{i}"\<close>.\<close>

fun dec :: "nat \<Rightarrow> ustr" where
  "dec n = (if n < 10 then [48 + n] else dec (n div 10) @ [48 + n mod 10])"

declare dec.simps [simp del]

definition TOOLS :: "ustr list" where
  "TOOLS = [u ''f1'', u ''f2'', u ''f3'', u ''llm'']"

text \<open>
  The loop of \<open>_llm_route\<close> over \<open>enumerate(segs_in, 1)\<close>: a segment whose tool is not
  one of the four is skipped, the others are completed with defaults.
\<close>

fun norm_segments :: "nat \<Rightarrow> raw_segment list \<Rightarrow> segment list" where
  "norm_segments i [] = []"
| "norm_segments i (seg # rest) =
     (let tool = lower (case r_tool seg of None \<Rightarrow> [] | Some t \<Rightarrow> t)
      in if tool \<notin> set TOOLS then norm_segments (i + 1) rest
         else \<lparr> s_id = Some (case r_id seg of
                               None \<Rightarrow> u ''s'' @ dec i
                             | Some x \<Rightarrow> if x = [] then u ''s'' @ dec i else x),
                s_q = (case r_q seg of None \<Rightarrow> [] | Some x \<Rightarrow> x),
                s_tool = tool,
                s_confidence = (case r_confidence seg of None \<Rightarrow> 0 | Some c \<Rightarrow> c),
                s_reasons = (case r_reasons seg of None \<Rightarrow> [] | Some rs \<Rightarrow> rs),
                s_needs_context = (case r_needs_context seg of None \<Rightarrow> False | Some b \<Rightarrow> b),
                s_q_template = (case r_q_template seg of None \<Rightarrow> [] | Some x \<Rightarrow> x) \<rparr>
              # norm_segments (i + 1) rest)"

text \<open>
  \<open>_llm_route\<close> from the decoded object on (lines 106 to 134); every failure before
  that point makes the function return \<open>None\<close>.
\<close>

definition llm_route_obj :: "raw_suggestion \<Rightarrow> suggestion option" where
  "llm_route_obj obj =
     (let mode = lower (case o_mode obj of None \<Rightarrow> u ''single'' | Some m \<Rightarrow> m);
          conf = (case o_confidence obj of None \<Rightarrow> 0 | Some c \<Rightarrow> c);
          reasons = (case o_reasons obj of None \<Rightarrow> [] | Some rs \<Rightarrow> rs)
      in case (if mode = u ''multi'' then o_segments obj else None) of
           Some segs_in \<Rightarrow> Some (Multi (norm_segments 1 segs_in) conf reasons)
         | None \<Rightarrow>
             (let tgt = lower (case o_target obj of None \<Rightarrow> [] | Some t \<Rightarrow> t)
              in if tgt \<notin> set TOOLS then None else Some (Single tgt conf reasons)))"

section \<open>The router\<close>

text \<open>
  What one run of \<open>route\<close> observes of its surroundings: the result of the
  knowledge-base probe, the threshold of the environment (none when unset or not a
  number), the suggestion of the language model, and the rendering \<open>{:.3f}\<close> of a score.
\<close>

record route_env =
  kb_probe_result :: "bool \<times> rat"
  env_threshold :: "rat option"
  llm_suggestion :: "suggestion option"
  fmt3f :: "rat \<Rightarrow> ustr"

definition mk_decision :: "ustr \<Rightarrow> rat \<Rightarrow> ustr list \<Rightarrow> pydict \<Rightarrow> decision" where
  "mk_decision t c rs sl =
     \<lparr> d_target = t, d_confidence = c, d_reasons = rs, d_slots = sl, d_plan = None \<rparr>"

text \<open>\<open>.*\<close> followed by the rest \<open>k\<close> of the pattern: the dot does not match a newline.\<close>

fun dotstar_then :: "(ustr \<Rightarrow> bool) \<Rightarrow> ustr \<Rightarrow> bool" where
  "dotstar_then k [] = k []"
| "dotstar_then k (c # cs) = (k (c # cs) \<or> (c \<noteq> 10 \<and> dotstar_then k cs))"

definition EXPLICIT_F2_VERBS :: "ustr list" where
  "EXPLICIT_F2_VERBS = [[29992], [20351, 29992], [35843, 29992]]"

definition EXPLICIT_F2_NOUNS :: "ustr list" where
  "EXPLICIT_F2_NOUNS = [[30693, 35782, 24211], [25991, 26723], [36164, 26009],
     [25253, 21578], [25163, 20876], [35828, 26126, 20070]]"

definition EXPLICIT_F1 :: "ustr list" where
  "EXPLICIT_F1 = [[32852, 32593], [19978, 32593], [25628, 32034], [25628, 19968, 19979],
     [25628, 19968, 25628], [26597, 19968, 26597]]"

definition EXPLICIT_LLM :: "ustr list" where
  "EXPLICIT_LLM = [[19981, 32852, 32593], [30452, 25509, 22238, 31572],
     [32431, 23545, 35805], [38386, 32842]]"

definition explicit_f2_at :: "ustr \<Rightarrow> bool" where
  "explicit_f2_at t =
     list_ex (\<lambda>v. prefix v t \<and> dotstar_then (alt_at EXPLICIT_F2_NOUNS) (drop (length v) t))
       EXPLICIT_F2_VERBS"

definition detect_explicit :: "ustr \<Rightarrow> decision option" where
  "detect_explicit q =
     (if re_search explicit_f2_at q then
        Some (mk_decision (u ''f2'') (98 / 100) [u ''explicit:f2''] [])
      else if search_any EXPLICIT_F1 q then
        Some (mk_decision (u ''f1'') (98 / 100) [u ''explicit:f1''] (extract_slots q))
      else if search_any EXPLICIT_LLM q then
        Some (mk_decision (u ''llm'') (98 / 100) [u ''explicit:llm''] [])
      else None)"

definition threshold :: "route_env \<Rightarrow> rat" where
  "threshold env = (case env_threshold env of None \<Rightarrow> 35 / 100 | Some t \<Rightarrow> t)"

definition kb_score_tag :: "route_env \<Rightarrow> ustr" where
  "kb_score_tag env = u ''kb:score='' @ fmt3f env (snd (kb_probe_result env))"

definition by_rules :: "route_env \<Rightarrow> ustr \<Rightarrow> decision" where
  "by_rules env q =
     (let (kb_ready, kb_score) = kb_probe_result env;
          th = threshold env;
          kb_hint = search_any KB_HINT q
      in if is_greet q then mk_decision (u ''llm'') (9 / 10) [u ''greet''] []
         else if prefer_llm q then mk_decision (u ''llm'') (85 / 100) [u ''gen''] []
         else if math_signal q then mk_decision (u ''f3'') (85 / 100) [u ''math''] []
         else if web_signal q then
           mk_decision (u ''f1'') (85 / 100)
             ((if search_any TIME_WORDS q then [u ''time''] else [])
              @ (if search_any WEATHER_HINT q then [u ''weather''] else [])
              @ (if search_any NEWS_PRICE q then [u ''news/price''] else []))
             (extract_slots q)
         else if kb_ready \<and> kb_score \<ge> th then
           mk_decision (u ''f2'') (85 / 100) [kb_score_tag env] []
         else if kb_hint then mk_decision (u ''f2'') (75 / 100) [u ''kb-hint''] []
         else mk_decision (u ''llm'') (7 / 10) [u ''default-llm''] [])"

text \<open>
  The second look at one segment of a multi-segment suggestion: a search or
  knowledge-base segment whose own text asks for writing or explaining goes to the
  general responder.
\<close>

definition revalidate :: "segment \<Rightarrow> segment" where
  "revalidate seg =
     (let q_seg = s_q seg;
          tool = lower (s_tool seg);
          downgrade = (tool \<in> {u ''f1'', u ''f2''} \<and> prefer_llm q_seg)
      in \<lparr> s_id = (case s_id seg of None \<Rightarrow> None | Some x \<Rightarrow> if x = [] then None else Some x),
           s_q = q_seg,
           s_tool = (if downgrade then u ''llm'' else tool),
           s_confidence = s_confidence seg,
           s_reasons = (if downgrade then s_reasons seg @ [u ''rule:prefer-llm-gen'']
                        else s_reasons seg),
           s_needs_context = s_needs_context seg,
           s_q_template = s_q_template seg \<rparr>)"

text \<open>
  \<open>sorted(plan, key=confidence, reverse=True)[0]\<close>. Python's sort is stable, also with
  \<open>reverse=True\<close>: steps of equal confidence keep their order. The plan is not empty
  where this is called.
\<close>

definition primary_of :: "segment list \<Rightarrow> segment" where
  "primary_of plan = hd (sort_key (\<lambda>x. - s_confidence x) plan)"

text \<open>
  Lines 248 to 276: the plan and the target, confidence and reasons that the rest of
  \<open>route\<close> works with. A multi-segment suggestion without segments has no key
  \<open>target\<close>, and \<open>sug["target"]\<close> raises.
\<close>

definition governing :: "suggestion \<Rightarrow> py_exn + (segment list \<times> ustr \<times> rat \<times> ustr list)" where
  "governing sug =
     (case sug of
        Multi segs conf0 reasons0 \<Rightarrow>
          if segs \<noteq> [] then
            (let plan = map revalidate segs;
                 primary = primary_of plan
             in Inr (plan, s_tool primary, s_confidence primary,
                     u ''llm:multi-primary'' # s_reasons primary))
          else Inl KeyError
      | Single tgt conf reasons \<Rightarrow> Inr ([], tgt, conf, reasons))"

text \<open>\<open>if plan: out["plan"] = plan\<close>, the last statement of every branch.\<close>

definition with_plan :: "segment list \<Rightarrow> decision \<Rightarrow> decision" where
  "with_plan plan out = (if plan \<noteq> [] then out \<lparr> d_plan := Some plan \<rparr> else out)"

text \<open>Lines 289 to 365: the suggested target weighed against the rule signals.\<close>

definition reconcile :: "route_env \<Rightarrow> ustr \<Rightarrow> ustr \<Rightarrow> rat \<Rightarrow> ustr list \<Rightarrow> decision" where
  "reconcile env q tgt conf reasons =
     (let (kb_ready, kb_score) = kb_probe_result env;
          strong_kb = (kb_ready \<and> kb_score \<ge> threshold env);
          kb_hint = search_any KB_HINT q;
          kb_reason = (if strong_kb then [kb_score_tag env] else [u ''kb-hint''])
      in if tgt = u ''f1'' then
           (if web_signal q then
              mk_decision (u ''f1'') (max conf (9 / 10)) (reasons @ [u ''rule:web'']) (extract_slots q)
            else if math_signal q then
              mk_decision (u ''f3'') (85 / 100) (reasons @ [u ''rule:math'']) []
            else if strong_kb \<or> kb_hint then
              mk_decision (u ''f2'') (8 / 10) (reasons @ kb_reason) []
            else mk_decision (u ''f1'') conf reasons (extract_slots q))
         else if tgt = u ''f2'' then
           (if strong_kb then
              mk_decision (u ''f2'') (max conf (9 / 10)) (reasons @ [kb_score_tag env]) []
            else if web_signal q then
              mk_decision (u ''f1'') (85 / 100) (reasons @ [u ''rule:web'']) (extract_slots q)
            else if math_signal q then
              mk_decision (u ''f3'') (85 / 100) (reasons @ [u ''rule:math'']) []
            else if kb_hint then
              mk_decision (u ''f2'') (max conf (8 / 10)) (reasons @ [u ''kb-hint'']) []
            else mk_decision (u ''f2'') conf reasons [])
         else if tgt = u ''f3'' then
           (if math_signal q then
              mk_decision (u ''f3'') (max conf (9 / 10)) (reasons @ [u ''rule:math'']) []
            else if web_signal q then
              mk_decision (u ''f1'') (85 / 100) (reasons @ [u ''rule:web'']) (extract_slots q)
            else if strong_kb \<or> kb_hint then
              mk_decision (u ''f2'') (8 / 10) (reasons @ kb_reason) []
            else mk_decision (u ''f3'') conf reasons [])
         else
           (if is_greet q \<or> (is_short_query q \<and> \<not> web_signal q \<and> \<not> math_signal q \<and> \<not> kb_hint) then
              mk_decision (u ''llm'') (max conf (85 / 100))
                (reasons @ (if is_greet q then [u ''greet''] else [u ''short''])) []
            else if web_signal q then
              mk_decision (u ''f1'') (85 / 100) (reasons @ [u ''rule:web'']) (extract_slots q)
            else if math_signal q then
              mk_decision (u ''f3'') (85 / 100) (reasons @ [u ''rule:math'']) []
            else if strong_kb \<or> kb_hint then
              mk_decision (u ''f2'') (8 / 10) (reasons @ kb_reason) []
            else mk_decision (u ''llm'') (max conf (7 / 10)) reasons []))"

text \<open>The rule baseline with the tag of the low-confidence override (lines 282, 283).\<close>

definition rules_override :: "route_env \<Rightarrow> ustr \<Rightarrow> decision" where
  "rules_override env q =
     (let r = by_rules env q
      in r \<lparr> d_reasons := d_reasons r @ [u ''rule:override-llm-lowconf''] \<rparr>)"

definition route :: "route_env \<Rightarrow> ustr \<Rightarrow> py_exn + decision" where
  "route env q =
     (case detect_explicit q of
        Some hit \<Rightarrow> Inr hit
      | None \<Rightarrow>
          (case llm_suggestion env of
             None \<Rightarrow> Inr (by_rules env q)
           | Some sug \<Rightarrow>
               (case governing sug of
                  Inl e \<Rightarrow> Inl e
                | Inr (plan, tgt, conf, reasons) \<Rightarrow>
                    if conf < 6 / 10 then Inr (with_plan plan (rules_override env q))
                    else Inr (with_plan plan (reconcile env q tgt conf reasons)))))"

section \<open>The retrieval probe cache\<close>

text \<open>
  The module-level dict \<open>_KB_CACHE\<close>. An index object is identified by the number of
  index objects that had been constructed before it.
\<close>

record kb_cache =
  c_kb_id :: "ustr option"
  c_idx :: "nat option"
  c_mt_meta :: rat
  c_mt_index :: rat

record kb_state =
  cache :: kb_cache
  constructed :: nat

definition KB_CACHE_INIT :: kb_cache where
  "KB_CACHE_INIT = \<lparr> c_kb_id = None, c_idx = None, c_mt_meta = 0, c_mt_index = 0 \<rparr>"

text \<open>
  What a probe sees outside the module: whether the index class could be imported, the
  knowledge-base id of the environment, the modification time of the two files of a
  knowledge base (none when the file does not exist), whether loading the index of a
  knowledge base succeeds, and the answer of an index object to a query with
  \<open>top_k=1\<close> (an exception, no hit, or the score of the first hit).
\<close>

record kb_env =
  kb_available :: bool
  default_kb_id :: ustr
  meta_mtime :: "ustr \<Rightarrow> rat option"
  index_mtime :: "ustr \<Rightarrow> rat option"
  load_ok :: "ustr \<Rightarrow> bool"
  query_top1 :: "nat \<Rightarrow> ustr \<Rightarrow> py_exn + rat option"

definition need_reload :: "kb_cache \<Rightarrow> ustr \<Rightarrow> rat \<Rightarrow> rat \<Rightarrow> bool" where
  "need_reload c kb_id mt_meta mt_index =
     (c_idx c = None \<or> c_kb_id c \<noteq> Some kb_id \<or> c_mt_meta c \<noteq> mt_meta \<or> c_mt_index c \<noteq> mt_index)"

text \<open>Lines 68 to 71, inside the \<open>try\<close>: any exception gives \<open>(False, 0.0)\<close>.\<close>

definition probe_query :: "kb_env \<Rightarrow> kb_state \<Rightarrow> ustr \<Rightarrow> (bool \<times> rat) \<times> kb_state" where
  "probe_query env st q =
     (case c_idx (cache st) of
        None \<Rightarrow> ((False, 0), st)
      | Some idx \<Rightarrow>
          (case query_top1 env idx q of
             Inl e \<Rightarrow> ((False, 0), st)
           | Inr None \<Rightarrow> ((True, 0), st)
           | Inr (Some score) \<Rightarrow> ((True, score), st)))"

text \<open>\<open>kb_id or os.getenv("KB_ROUTE_KB_ID", "default")\<close>.\<close>

definition resolve_kb_id :: "kb_env \<Rightarrow> ustr option \<Rightarrow> ustr" where
  "resolve_kb_id env kb_id_arg =
     (case kb_id_arg of
        None \<Rightarrow> default_kb_id env
      | Some i \<Rightarrow> if i = [] then default_kb_id env else i)"

definition kb_probe :: "kb_env \<Rightarrow> kb_state \<Rightarrow> ustr \<Rightarrow> ustr option \<Rightarrow> (bool \<times> rat) \<times> kb_state" where
  "kb_probe env st q kb_id_arg =
     (if \<not> kb_available env then ((False, 0), st)
      else
        (let kb_id = resolve_kb_id env kb_id_arg
         in case (meta_mtime env kb_id, index_mtime env kb_id) of
              (Some mt_meta, Some mt_index) \<Rightarrow>
                if need_reload (cache st) kb_id mt_meta mt_index then
                  (let idx = constructed st;
                       st1 = st \<lparr> constructed := constructed st + 1 \<rparr>
                   in if load_ok env kb_id then
                        probe_query env
                          (st1 \<lparr> cache := \<lparr> c_kb_id = Some kb_id, c_idx = Some idx,
                                            c_mt_meta = mt_meta, c_mt_index = mt_index \<rparr> \<rparr>) q
                      else ((False, 0), st1))
                else probe_query env st q
            | _ \<Rightarrow> ((False, 0), st)))"

section \<open>The plan orchestrator (app.py)\<close>

text \<open>The context map: step id to the \<open>ans\<close> and \<open>text\<close> of that step's result.\<close>

record ctx_entry =
  e_ans :: pyval
  e_text :: pyval

type_synonym ctx = "ustr \<Rightarrow> ctx_entry option"

text \<open>
  \<open>str(x)\<close>. The text of a float, a list or a dict is left to \<open>rp\<close> (Python's
  \<open>repr\<close>).
\<close>

fun py_str :: "(pyval \<Rightarrow> ustr) \<Rightarrow> pyval \<Rightarrow> ustr" where
  "py_str rp (PStr s) = s"
| "py_str rp PNone = u ''None''"
| "py_str rp (PBool b) = (if b then u ''True'' else u ''False'')"
| "py_str rp (PInt i) = (if i < 0 then 45 # dec (nat (- i)) else dec (nat i))"
| "py_str rp v = rp v"

text \<open>
  \<open>int(x)\<close>. Reading a number out of a string is left to \<open>parse\<close>; a float is cut
  towards zero.
\<close>

fun py_int :: "(ustr \<Rightarrow> int option) \<Rightarrow> pyval \<Rightarrow> py_exn + int" where
  "py_int parse (PInt i) = Inr i"
| "py_int parse (PBool b) = Inr (if b then 1 else 0)"
| "py_int parse (PFloat r) = Inr (if r < 0 then - \<lfloor>- r\<rfloor> else \<lfloor>r\<rfloor>)"
| "py_int parse (PStr s) = (case parse s of None \<Rightarrow> Inl ValueError | Some i \<Rightarrow> Inr i)"
| "py_int parse v = Inl TypeError"

definition entry_get :: "ctx_entry \<Rightarrow> ustr \<Rightarrow> pyval option" where
  "entry_get e var =
     (if var = u ''ans'' then Some (e_ans e) else if var = u ''text'' then Some (e_text e) else None)"

text \<open>
  The callback \<open>_repl\<close> on the key between the braces; \<open>m.group(0)\<close> is the whole
  token.
\<close>

definition repl :: "(pyval \<Rightarrow> ustr) \<Rightarrow> ctx \<Rightarrow> ustr \<Rightarrow> ustr" where
  "repl rp cx key =
     (let token = 123 # key @ [125]
      in if 46 \<in> set key then
           (let sid2 = takeWhile (\<lambda>c. c \<noteq> 46) key;
                var = tl (dropWhile (\<lambda>c. c \<noteq> 46) key)
            in case cx sid2 of
                 None \<Rightarrow> token
               | Some e \<Rightarrow> (case entry_get e var of None \<Rightarrow> token | Some v \<Rightarrow> py_str rp v))
         else token)"

text \<open>
  \<open>re.sub(r"\{([^\}]+)\}", _repl, q_tmpl)\<close>: scanning from the left, an opening brace
  followed by at least one character other than the closing brace and then by a closing
  brace is a match; it is replaced and the scan goes on behind it.
\<close>

function sub_template :: "(pyval \<Rightarrow> ustr) \<Rightarrow> ctx \<Rightarrow> ustr \<Rightarrow> ustr" where
  "sub_template rp cx [] = []"
| "sub_template rp cx (c # cs) =
     (if c = 123 \<and> takeWhile (\<lambda>x. x \<noteq> 125) cs \<noteq> [] \<and> dropWhile (\<lambda>x. x \<noteq> 125) cs \<noteq> [] then
        repl rp cx (takeWhile (\<lambda>x. x \<noteq> 125) cs)
        @ sub_template rp cx (tl (dropWhile (\<lambda>x. x \<noteq> 125) cs))
      else c # sub_template rp cx cs)"
  by pat_completeness auto
termination
proof (relation "measure (\<lambda>(rp, cx, s). length s)")
  show "wf (measure (\<lambda>(rp, cx, s). length s))" by simp
next
  fix rp :: "pyval \<Rightarrow> ustr" and cx :: ctx and c :: nat and cs :: ustr
  assume "c = 123 \<and> takeWhile (\<lambda>x. x \<noteq> 125) cs \<noteq> [] \<and> dropWhile (\<lambda>x. x \<noteq> 125) cs \<noteq> []"
  have "length (tl (dropWhile (\<lambda>x. x \<noteq> 125) cs)) \<le> length (dropWhile (\<lambda>x. x \<noteq> 125) cs)"
    by simp
  also have "\<dots> \<le> length cs" by (rule length_dropWhile_le)
  finally show "((rp, cx, tl (dropWhile (\<lambda>x. x \<noteq> 125) cs)), (rp, cx, c # cs))
      \<in> measure (\<lambda>(rp, cx, s). length s)"
    by simp
next
  fix rp :: "pyval \<Rightarrow> ustr" and cx :: ctx and c :: nat and cs :: ustr
  show "((rp, cx, cs), (rp, cx, c # cs)) \<in> measure (\<lambda>(rp, cx, s). length s)" by simp
qed

text \<open>
  The collaborators and built-ins of one orchestration run: the registered handlers, the
  query rewriting of lines 89 to 104 (a \<open>try\<close> whose \<open>except\<close> keeps the sub-query, so
  that it always yields a query), \<open>repr\<close>, and the reading of an integer out of a
  string.
\<close>

record 'w app_env =
  tools :: "'w handlers"
  llm_rewrite :: "ctx \<Rightarrow> ustr \<Rightarrow> 'w \<Rightarrow> ustr \<times> 'w"
  py_repr :: "pyval \<Rightarrow> ustr"
  int_of_str :: "ustr \<Rightarrow> int option"

text \<open>One record of the step trace.\<close>

record step_rec =
  rec_id :: ustr
  rec_tool :: ustr
  rec_input_q :: ustr
  rec_output :: pyval

datatype result_val = Items pyval | Steps "step_rec list"

record response =
  resp_query :: ustr
  resp_decision :: decision
  resp_results :: "(ustr \<times> result_val) list"
  resp_error :: "pyval option"

text \<open>Lines 74 to 104: the query of a step.\<close>

definition step_query :: "'w app_env \<Rightarrow> ctx \<Rightarrow> ustr \<Rightarrow> segment \<Rightarrow> 'w \<Rightarrow> ustr \<times> 'w" where
  "step_query env cx q step w =
     (let step_q = (if s_q step = [] then q else s_q step);
          needs_ctx = s_needs_context step;
          q_tmpl = s_q_template step
      in if needs_ctx \<and> q_tmpl \<noteq> [] then (sub_template (py_repr env) cx q_tmpl, w)
         else if needs_ctx \<and> q_tmpl = [] then llm_rewrite env cx step_q w
         else (step_q, w))"

text \<open>Lines 107 to 116: the payload of a step; \<open>int(data["top_k"])\<close> may raise.\<close>

definition step_payload ::
  "'w app_env \<Rightarrow> int \<Rightarrow> pydict \<Rightarrow> pydict \<Rightarrow> ustr \<Rightarrow> ustr \<Rightarrow> py_exn + pydict" where
  "step_payload env k payload data tool step_q =
     (let sp = [(u ''q'', PStr step_q)]
      in if tool = u ''f1'' then
           Inr (dupdate sp
                  [(u ''k'', PInt k),
                   (u ''slots'', (case dget payload (u ''slots'') of None \<Rightarrow> PDict [] | Some v \<Rightarrow> v))])
         else if tool = u ''f2'' then
           (let sp1 = (case dget data (u ''kb_id'') of None \<Rightarrow> sp | Some v \<Rightarrow> dset (u ''kb_id'') v sp)
            in case (case dget data (u ''top_k'') of
                       None \<Rightarrow> Inr sp1
                     | Some v \<Rightarrow>
                         (case py_int (int_of_str env) v of
                            Inl e \<Rightarrow> Inl e
                          | Inr i \<Rightarrow> Inr (dset (u ''top_k'') (PInt i) sp1))) of
                 Inl e \<Rightarrow> Inl e
               | Inr sp2 \<Rightarrow>
                   Inr (case dget data (u ''gen'') of
                          None \<Rightarrow> sp2
                        | Some v \<Rightarrow> dset (u ''gen'') (PBool (truthy v)) sp2))
         else if tool = u ''f3'' then
           Inr (case dget data (u ''code'') of None \<Rightarrow> sp | Some v \<Rightarrow> dset (u ''code'') v sp)
         else Inr sp)"

text \<open>
  The state of the loop over the plan: the context map, the trace so far, and the
  variable \<open>out\<close> (the result of the latest dispatch).
\<close>

type_synonym plan_state = "ctx \<times> step_rec list \<times> pyval"

text \<open>\<open>step.get("id") or "s"\<close>.\<close>

definition step_sid :: "segment \<Rightarrow> ustr" where
  "step_sid step = (case s_id step of None \<Rightarrow> u ''s'' | Some x \<Rightarrow> if x = [] then u ''s'' else x)"

text \<open>The body of the loop (lines 72 to 130) for one step.\<close>

definition run_step ::
  "'w app_env \<Rightarrow> ustr \<Rightarrow> int \<Rightarrow> pydict \<Rightarrow> pydict \<Rightarrow> plan_state \<Rightarrow> segment \<Rightarrow> 'w
     \<Rightarrow> (py_exn + plan_state) \<times> 'w" where
  "run_step env q k payload data st step w =
     (let (cx, steps_out, last_out) = st;
          sid = step_sid step;
          tool = s_tool step;
          (step_q, w1) = step_query env cx q step w
      in case step_payload env k payload data tool step_q of
           Inl e \<Rightarrow> (Inl e, w1)
         | Inr sp \<Rightarrow>
             (case dispatch (tools env) tool sp w1 of
                (Inl e, w2) \<Rightarrow> (Inl e, w2)
              | (Inr out, w2) \<Rightarrow>
                  (case attr_get out (u ''result'') PNone of
                     Inl e \<Rightarrow> (Inl e, w2)
                   | Inr a \<Rightarrow>
                       (case attr_get out (u ''text'') PNone of
                          Inl e \<Rightarrow> (Inl e, w2)
                        | Inr t \<Rightarrow>
                            (Inr (cx(sid \<mapsto> \<lparr> e_ans = a, e_text = t \<rparr>),
                                  steps_out @ [\<lparr> rec_id = sid, rec_tool = tool,
                                                 rec_input_q = step_q, rec_output = out \<rparr>],
                                  out), w2)))))"

text \<open>The loop: steps run in the order of the plan; an exception ends it.\<close>

fun run_plan ::
  "'w app_env \<Rightarrow> ustr \<Rightarrow> int \<Rightarrow> pydict \<Rightarrow> pydict \<Rightarrow> segment list \<Rightarrow> plan_state \<Rightarrow> 'w
     \<Rightarrow> (py_exn + plan_state) \<times> 'w" where
  "run_plan env q k payload data [] st w = (Inr st, w)"
| "run_plan env q k payload data (step # rest) st w =
     (case run_step env q k payload data st step w of
        (Inl e, w') \<Rightarrow> (Inl e, w')
      | (Inr st', w') \<Rightarrow> run_plan env q k payload data rest st' w')"

text \<open>\<open>r.get("output", {}).get("items", []) or []\<close>, an exception giving \<open>[]\<close>.\<close>

definition items_of :: "pyval \<Rightarrow> pyval" where
  "items_of out =
     (case attr_get out (u ''items'') (PList []) of
        Inl e \<Rightarrow> PList []
      | Inr v \<Rightarrow> if truthy v then v else PList [])"

text \<open>Lines 134 to 137: the first record of the trace whose tool is the primary tool.\<close>

definition primary_items_of :: "ustr \<Rightarrow> step_rec list \<Rightarrow> pyval" where
  "primary_items_of primary_tool steps_out =
     (case find (\<lambda>r. rec_tool r = primary_tool) steps_out of
        None \<Rightarrow> PList []
      | Some r \<Rightarrow> items_of (rec_output r))"

text \<open>\<open>isinstance(x, dict) and x.get("error")\<close>, when it is truthy.\<close>

definition error_of :: "pyval \<Rightarrow> pyval option" where
  "error_of x =
     (case x of
        PDict d \<Rightarrow> (case dget d (u ''error'') of
                      None \<Rightarrow> None
                    | Some v \<Rightarrow> if truthy v then Some v else None)
      | _ \<Rightarrow> None)"

text \<open>Lines 154 to 163: the single dispatch, outside every \<open>try\<close>.\<close>

definition single_step ::
  "'w app_env \<Rightarrow> decision \<Rightarrow> ustr \<Rightarrow> ustr \<Rightarrow> pydict \<Rightarrow> 'w \<Rightarrow> (py_exn + response) \<times> 'w" where
  "single_step env decision q target payload w =
     (case dispatch (tools env) target payload w of
        (Inl e, w') \<Rightarrow> (Inl e, w')
      | (Inr result, w') \<Rightarrow>
          (case attr_get result (u ''items'') (PList []) of
             Inl e \<Rightarrow> (Inl e, w')
           | Inr items \<Rightarrow>
               (Inr \<lparr> resp_query = q, resp_decision = decision,
                      resp_results = [(target, Items items)],
                      resp_error = error_of result \<rparr>, w')))"

definition base_payload :: "decision \<Rightarrow> ustr \<Rightarrow> int \<Rightarrow> pydict \<Rightarrow> pydict" where
  "base_payload decision q k data =
     dupdate [(u ''q'', PStr q), (u ''k'', PInt k), (u ''slots'', PDict (d_slots decision))] data"

definition resolved_target :: "decision \<Rightarrow> ustr" where
  "resolved_target decision =
     (if d_target decision \<noteq> u ''hybrid'' then d_target decision else u ''f1'')"

text \<open>
  \<open>answer\<close> from line 53 on, for a decision, the stripped non-empty query \<open>q\<close>, the
  count \<open>k\<close> and the request data. The plan, when there is one, has the keys that
  \<open>route\<close> gives every step, so the choice of the primary step cannot raise.
\<close>

definition orchestrate ::
  "'w app_env \<Rightarrow> decision \<Rightarrow> ustr \<Rightarrow> int \<Rightarrow> pydict \<Rightarrow> 'w \<Rightarrow> (py_exn + response) \<times> 'w" where
  "orchestrate env decision q k data w =
     (let target = resolved_target decision;
          payload = base_payload decision q k data
      in case (case d_plan decision of None \<Rightarrow> [] | Some p \<Rightarrow> p) of
           [] \<Rightarrow> single_step env decision q target payload w
         | step # rest \<Rightarrow>
             (let plan = step # rest;
                  primary_tool = s_tool (primary_of plan)
              in case run_plan env q k payload data plan (Map.empty, [], PNone) w of
                   (Inl e, w') \<Rightarrow> single_step env decision q target payload w'
                 | (Inr (cx, steps_out, out), w') \<Rightarrow>
                     (Inr \<lparr> resp_query = q, resp_decision = decision,
                            resp_results =
                              dset (u ''steps'') (Steps steps_out)
                                [(primary_tool, Items (primary_items_of primary_tool steps_out))],
                            resp_error = error_of out \<rparr>, w')))"

section \<open>Sample collaborators and auxiliary notions\<close>

text \<open>
  Concrete collaborators for running the model: handlers over a world that counts the
  handler calls, one that answers with the query it was given and one that raises.
\<close>

definition ok_handler :: "ustr \<Rightarrow> nat handler" where
  "ok_handler name payload w =
     (Inr (PDict [(u ''feature'', PStr name),
                  (u ''items'', PList [case dget payload (u ''q'') of None \<Rightarrow> PNone | Some v \<Rightarrow> v]),
                  (u ''text'', PStr name)]), w + 1)"

definition raising_handler :: "nat handler" where
  "raising_handler payload w = (Inl AttributeError, w + 1)"

definition sample_tools :: "nat handlers" where
  "sample_tools = \<lparr> f1_run = ok_handler (u ''f1''), llm_run = ok_handler (u ''llm''),
                      f2_run = ok_handler (u ''f2''), f3_run = ok_handler (u ''f3'') \<rparr>"

definition sample_app :: "nat app_env" where
  "sample_app = \<lparr> tools = sample_tools, llm_rewrite = (\<lambda>cx q w. (q, w)),
                    py_repr = (\<lambda>v. []), int_of_str = (\<lambda>s. None) \<rparr>"

definition broken_app :: "nat app_env" where
  "broken_app = sample_app \<lparr> tools := sample_tools \<lparr> f1_run := raising_handler \<rparr> \<rparr>"

definition sample_env :: route_env where
  "sample_env = \<lparr> kb_probe_result = (False, 0), env_threshold = None,
                    llm_suggestion = None, fmt3f = (\<lambda>r. []) \<rparr>"

text \<open>Sample plan steps: a search step, a chat step, and the search step with a low confidence.\<close>

definition seg_calc :: segment where
  "seg_calc = \<lparr> s_id = Some (u ''s1''), s_q = u ''1+2+3'', s_tool = u ''f1'', s_confidence = 9 / 10,
                 s_reasons = [], s_needs_context = False, s_q_template = [] \<rparr>"

definition seg_chat :: segment where
  "seg_chat = \<lparr> s_id = Some (u ''s2''), s_q = u ''abc'', s_tool = u ''llm'', s_confidence = 95 / 100,
                 s_reasons = [], s_needs_context = False, s_q_template = [] \<rparr>"

definition seg_weak :: segment where
  "seg_weak = seg_calc \<lparr> s_confidence := 1 / 2 \<rparr>"

text \<open>
  A further search step, request data, a decision carrying a plan, and what the sample
  handlers produce for a step: the result, the trace record and the context entry.
\<close>

definition seg_news :: segment where
  "seg_news = \<lparr> s_id = Some (u ''s3''), s_q = u ''xyz'', s_tool = u ''f1'', s_confidence = 7 / 10,
                 s_reasons = [], s_needs_context = False, s_q_template = [] \<rparr>"

definition sample_data :: pydict where
  "sample_data = [(u ''q'', PStr (u ''1+2+3''))]"

definition plan_decision :: "ustr \<Rightarrow> segment list \<Rightarrow> decision" where
  "plan_decision tgt plan = \<lparr> d_target = tgt, d_confidence = 85 / 100,
       d_reasons = [u ''llm:multi-primary'', u ''rule:math''], d_slots = [], d_plan = Some plan \<rparr>"

definition sample_out :: "ustr \<Rightarrow> ustr \<Rightarrow> pyval" where
  "sample_out name q =
     PDict [(u ''feature'', PStr name), (u ''items'', PList [PStr q]), (u ''text'', PStr name)]"

definition sample_rec :: "segment \<Rightarrow> step_rec" where
  "sample_rec step = \<lparr> rec_id = step_sid step, rec_tool = s_tool step, rec_input_q = s_q step,
                        rec_output = sample_out (s_tool step) (s_q step) \<rparr>"

definition sample_entry :: "segment \<Rightarrow> ctx_entry" where
  "sample_entry step = \<lparr> e_ans = PNone, e_text = PStr (s_tool step) \<rparr>"

text \<open>
  No recorded value, rendered by \<open>str\<close>, contains an opening brace; and two context
  maps, one whose recorded answer is itself a placeholder; \<open>no_repr\<close> stands in for
  \<open>repr\<close> where no float, list or dict is rendered.
\<close>

definition brace_free :: "(pyval \<Rightarrow> ustr) \<Rightarrow> ctx \<Rightarrow> bool" where
  "brace_free rp cx =
     (\<forall>sid e. cx sid = Some e \<longrightarrow>
        123 \<notin> set (py_str rp (e_ans e)) \<and> 123 \<notin> set (py_str rp (e_text e)))"

definition no_repr :: "pyval \<Rightarrow> ustr" where
  "no_repr v = []"

definition ctx_nested :: ctx where
  "ctx_nested = [u ''s1'' \<mapsto> \<lparr> e_ans = PStr (u ''{s1.text}''), e_text = PStr (u ''x'') \<rparr>]"

definition ctx_plain :: ctx where
  "ctx_plain = [u ''s1'' \<mapsto> \<lparr> e_ans = PInt 42, e_text = PStr (u ''x'') \<rparr>]"

text \<open>
  A surrounding for the probe in which only the knowledge base \<open>a\<close> has index files, the
  same with an index that fails to load, the state before the first probe, and the state
  with the index of \<open>a\<close> loaded.
\<close>

definition sample_kb_env :: kb_env where
  "sample_kb_env = \<lparr> kb_available = True, default_kb_id = u ''default'',
       meta_mtime = (\<lambda>k. if k = u ''a'' then Some 1 else None),
       index_mtime = (\<lambda>k. if k = u ''a'' then Some 1 else None),
       load_ok = (\<lambda>k. True),
       query_top1 = (\<lambda>h q. Inr (Some (1 / 2))) \<rparr>"

definition unloadable_kb_env :: kb_env where
  "unloadable_kb_env = sample_kb_env \<lparr> load_ok := (\<lambda>k. False) \<rparr>"

definition kb_state_init :: kb_state where
  "kb_state_init = \<lparr> cache = KB_CACHE_INIT, constructed = 0 \<rparr>"

definition kb_state_a :: kb_state where
  "kb_state_a = \<lparr> cache = \<lparr> c_kb_id = Some (u ''a''), c_idx = Some 0, c_mt_meta = 1, c_mt_index = 1 \<rparr>,
                  constructed = 1 \<rparr>"

text \<open>Every character that can occur in a query accepted by \<open>is_greet\<close>.\<close>

definition greet_chars :: "nat list" where
  "greet_chars = concat (map case_forms (concat GREET_WORDS)) @ GREET_PUNCT @ SPACES"

section \<open>Properties of the registry\<close>

lemma u_simps: "u [] = []" "u (c # cs) = of_char c # u cs"
  by (simp_all add: u_def)

text \<open>
  Claim C10. For a tool identifier that is not a key of the registry, and any payload,
  dispatch returns (it does not raise) the mapping with the error text
  "unknown feature: " followed by the identifier and an empty items list. No handler runs:
  the outside world is left as it was and the result is the same whatever the registered
  handlers are.
\<close>

theorem dispatch_unknown:
  assumes "target \<notin> {u ''f1'', u ''llm'', u ''f2'', u ''f3''}"
  shows "dispatch hs target payload w =
           (Inr (PDict [(u ''error'', PStr (u ''unknown feature: '' @ target)),
                        (u ''items'', PList [])]), w)"
  using assms by (simp add: dispatch_def REGISTRY_def u_simps)

theorem dispatch_unknown_witness:
  "u ''f9'' \<notin> {u ''f1'', u ''llm'', u ''f2'', u ''f3''} \<and>
   dispatch sample_tools (u ''f9'') [(u ''q'', PStr (u ''x''))] (0::nat) =
     (Inr (PDict [(u ''error'', PStr (u ''unknown feature: f9'')), (u ''items'', PList [])]), 0)"
proof -
  have h: "u ''f9'' \<notin> {u ''f1'', u ''llm'', u ''f2'', u ''f3''}" by (simp add: u_simps)
  show ?thesis
    using h dispatch_unknown [OF h, of sample_tools "[(u ''q'', PStr (u ''x''))]" "0::nat"]
    by (simp add: u_simps)
qed

section \<open>Properties of the rule baseline\<close>

lemma re_search_ex: "re_search P q \<Longrightarrow> \<exists>t. suffix t q \<and> P t"
proof (induction q)
  case Nil
  then show ?case by auto
next
  case (Cons c cs)
  then show ?case by (auto simp: suffix_Cons)
qed

lemma search_any_hd:
  assumes "search_any ws q" and "[] \<notin> set ws"
  shows "\<exists>w \<in> set ws. hd w \<in> set q"
proof -
  from assms(1) obtain t where t: "suffix t q" "alt_at ws t"
    unfolding search_any_def using re_search_ex by blast
  then obtain w where w: "w \<in> set ws" "prefix w t"
    by (auto simp: alt_at_def list_ex_iff)
  with assms(2) have "w \<noteq> []" by auto
  with w(2) have "hd w \<in> set t" by (cases w; cases t) auto
  with t(1) have "hd w \<in> set q" by (auto dest: set_mono_suffix)
  with w(1) show ?thesis by blast
qed

lemma has_run3_ex: "has_run3 P q \<Longrightarrow> \<exists>c \<in> set q. P c"
  by (induction P q rule: has_run3.induct) auto

lemma set_dropWhile_space: "set xs \<subseteq> set (dropWhile is_space xs) \<union> {c. is_space c}"
  by (induction xs) auto

lemma set_strip: "set q \<subseteq> set (strip q) \<union> {c. is_space c}"
proof -
  define d where "d = dropWhile is_space q"
  have 1: "set q \<subseteq> set d \<union> {c. is_space c}"
    unfolding d_def by (rule set_dropWhile_space)
  have 2: "set (rev d) \<subseteq> set (dropWhile is_space (rev d)) \<union> {c. is_space c}"
    by (rule set_dropWhile_space)
  have 3: "set (strip q) = set (dropWhile is_space (rev d))"
    unfolding strip_def d_def by (simp only: set_rev)
  have 4: "set (rev d) = set d" by (simp only: set_rev)
  from 1 2 show ?thesis unfolding 3 4 by blast
qed

lemma ci_all2_set:
  "list_all2 ci_match w t \<Longrightarrow> set t \<subseteq> set (concat (map case_forms w))"
  by (induction w t rule: list_all2_induct) (auto simp: ci_match_def)

lemma ci_prefix_set:
  assumes "ci_prefix w s"
  shows "set (take (length w) s) \<subseteq> set (concat (map case_forms w))"
  using assms ci_all2_set by (simp add: ci_prefix_def)

lemma is_greet_chars:
  assumes "is_greet q" and "c \<in> set q"
  shows "c \<in> set greet_chars"
proof -
  from assms(1) obtain w where w: "w \<in> set GREET_WORDS" "ci_prefix w (strip q)"
      "list_all greet_tail_char (drop (length w) (strip q))"
    by (auto simp: is_greet_def Let_def list_ex_iff)
  have sp: "is_space x \<Longrightarrow> x \<in> set greet_chars" for x
    by (simp add: is_space_def greet_chars_def)
  have tl: "greet_tail_char x \<Longrightarrow> x \<in> set greet_chars" for x
    using sp by (auto simp: greet_tail_char_def greet_chars_def)
  have hdp: "set (take (length w) (strip q)) \<subseteq> set greet_chars"
  proof -
    have "set (concat (map case_forms w)) \<subseteq> set (concat (map case_forms (concat GREET_WORDS)))"
      using w(1) by auto
    with ci_prefix_set[OF w(2)] show ?thesis by (auto simp: greet_chars_def)
  qed
  have "set (strip q) = set (take (length w) (strip q)) \<union> set (drop (length w) (strip q))"
    by (metis append_take_drop_id set_append)
  with hdp tl w(3) have "set (strip q) \<subseteq> set greet_chars"
    by (auto simp: list_all_iff)
  with set_strip[of q] sp assms(2) show ?thesis by auto
qed

lemma greet_chars_eval:
  "greet_chars = [20320, 22909, 24744, 22909, 21704, 21949, 21992, 104, 72, 105, 73, 304, 305,
     104, 72, 101, 69, 108, 76, 108, 76, 111, 79, 104, 72, 101, 69, 121, 89,
     26089, 19978, 22909, 20013, 21320, 22909, 19979, 21320, 22909, 26202, 19978, 22909,
     65281, 33, 12290, 46,
     9, 10, 11, 12, 13, 28, 29, 30, 31, 32, 133, 160, 5760, 8192, 8193,
     8194, 8195, 8196, 8197, 8198, 8199, 8200, 8201, 8202, 8232, 8233, 8239, 8287, 12288]"
  by (simp add: greet_chars_def GREET_WORDS_def case_forms_def GREET_PUNCT_def SPACES_def)

lemma greet_chars_all: "list_all (\<lambda>c. \<not> math_char c) greet_chars"
  unfolding greet_chars_eval
  by (simp add: math_char_def is_digit_def ND_RANGES_def)

lemma math_heads:
  "map hd MATH_WORDS = [35745, 27714, 27714, 27714, 26041, 35299, 31215, 24494, 23548, 26497,
     25490, 32452, 27010, 26041, 26631, 30697, 34892, 29305, 38454]"
  by (simp add: MATH_WORDS_def)

lemma greet_chars_kw: "list_all (\<lambda>c. c \<notin> set (map hd MATH_WORDS)) greet_chars"
  unfolding greet_chars_eval math_heads
  by simp

lemma greet_chars_not_math: "c \<in> set greet_chars \<Longrightarrow> \<not> math_char c"
  using greet_chars_all by (simp add: list_all_iff)

lemma greet_chars_not_kw: "c \<in> set greet_chars \<Longrightarrow> w \<in> set MATH_WORDS \<Longrightarrow> hd w \<noteq> c"
proof -
  assume c: "c \<in> set greet_chars" and w: "w \<in> set MATH_WORDS"
  from w have "hd w \<in> set (map hd MATH_WORDS)" by auto
  moreover from c greet_chars_kw have "c \<notin> set (map hd MATH_WORDS)"
    unfolding list_all_iff by blast
  ultimately show "hd w \<noteq> c" by blast
qed

lemma greet_not_math: "is_greet q \<Longrightarrow> \<not> math_signal q"
proof
  assume g: "is_greet q" and m: "math_signal q"
  from m consider "search_any MATH_WORDS q" | "has_run3 math_char q"
    by (auto simp: math_signal_def)
  then show False
  proof cases
    case 1
    have "[] \<notin> set MATH_WORDS" by (simp add: MATH_WORDS_def)
    from search_any_hd[OF 1 this] obtain w where "w \<in> set MATH_WORDS" "hd w \<in> set q" by blast
    with is_greet_chars[OF g, of "hd w"] greet_chars_not_kw[of "hd w" w] show False by blast
  next
    case 2
    from has_run3_ex[OF 2] obtain c where "c \<in> set q" "math_char c" by blast
    with is_greet_chars[OF g] greet_chars_not_math show False by blast
  qed
qed

lemma by_rules_of_math:
  assumes "math_signal q"
  shows "by_rules env q = mk_decision (u ''f3'') (85 / 100) [u ''math''] []"
proof -
  from assms have "\<not> is_greet q" using greet_not_math by blast
  moreover from assms have "\<not> prefer_llm q"
    by (simp add: prefer_llm_def math_signal_def Let_def)
  ultimately show ?thesis
    using assms by (simp add: by_rules_def Let_def split: prod.splits)
qed

text \<open>
  Claim C8. A query with a math signal (a math keyword, or three neighbouring characters
  out of digits, brackets and operators) that matches no explicit-tool pattern is sent by
  the rule baseline to the computation tool f3 with confidence 0.85 and the reason
  "math": the two checks that come first cannot fire, since a greeting contains no math
  signal and the generation check requires that there is none.
\<close>

theorem by_rules_math:
  assumes "math_signal q" and "detect_explicit q = None"
  shows "by_rules env q = mk_decision (u ''f3'') (85 / 100) [u ''math''] []"
  using assms(1) by (rule by_rules_of_math)

section \<open>The router on concrete queries\<close>

lemma math_123: "math_signal (u ''1+2+3'') = True"
  by (simp add: math_signal_def math_char_def is_digit_def ND_RANGES_def u_simps)

lemma web_123: "web_signal (u ''1+2+3'') = False"
  by (simp add: web_signal_def search_any_def alt_at_def TIME_WORDS_def WEATHER_HINT_def
      NEWS_PRICE_def u_simps)

lemma gen_123: "search_any GEN_HINT (u ''1+2+3'') = False"
  by (simp add: search_any_def alt_at_def GEN_HINT_def u_simps)

lemma gen_abc: "search_any GEN_HINT (u ''abc'') = False"
  by (simp add: search_any_def alt_at_def GEN_HINT_def u_simps)

lemma prefer_123: "prefer_llm (u ''1+2+3'') = False"
  unfolding prefer_llm_def gen_123 by simp

lemma prefer_abc: "prefer_llm (u ''abc'') = False"
  unfolding prefer_llm_def gen_abc by simp

lemma greet_123: "is_greet (u ''1+2+3'') = False"
  using greet_not_math[of "u ''1+2+3''"] math_123 by blast

lemma explicit_123: "detect_explicit (u ''1+2+3'') = None"
  by (simp add: detect_explicit_def explicit_f2_at_def EXPLICIT_F2_VERBS_def search_any_def
      alt_at_def EXPLICIT_F1_def EXPLICIT_LLM_def u_simps)

lemma explicit_abc: "detect_explicit (u ''abc'') = None"
  by (simp add: detect_explicit_def explicit_f2_at_def EXPLICIT_F2_VERBS_def search_any_def
      alt_at_def EXPLICIT_F1_def EXPLICIT_LLM_def u_simps)

lemma u_nonempty: "u (c # cs) \<noteq> []"
  by (simp add: u_simps)

lemma lower_f1: "lower (u ''f1'') = u ''f1''"
  by (simp add: lower_def u_simps)

lemma lower_llm: "lower (u ''llm'') = u ''llm''"
  by (simp add: lower_def u_simps)

lemma llm_not_search: "u ''llm'' \<notin> {u ''f1'', u ''f2''}"
  by (simp add: u_simps)

lemma revalidate_calc: "revalidate seg_calc = seg_calc"
  unfolding revalidate_def seg_calc_def Let_def
  by (simp add: prefer_123 lower_f1 u_nonempty)

lemma revalidate_chat: "revalidate seg_chat = seg_chat"
  unfolding revalidate_def seg_chat_def Let_def
  using llm_not_search by (simp add: lower_llm u_nonempty)

lemma primary_calc: "primary_of [seg_calc] = seg_calc"
  by (simp add: primary_of_def)

lemma primary_calc_chat: "primary_of [seg_calc, seg_chat] = seg_chat"
  by (simp add: primary_of_def seg_calc_def seg_chat_def)

lemma reconcile_f1_123:
  "reconcile env (u ''1+2+3'') (u ''f1'') c rs =
     mk_decision (u ''f3'') (85 / 100) (rs @ [u ''rule:math'']) []"
  unfolding reconcile_def math_123 web_123 by (simp add: Let_def split: prod.splits)

lemma reconcile_llm_123:
  "reconcile env (u ''1+2+3'') (u ''llm'') c rs =
     mk_decision (u ''f3'') (85 / 100) (rs @ [u ''rule:math'']) []"
  unfolding reconcile_def math_123 web_123 greet_123
  by (simp add: Let_def u_simps split: prod.splits)

lemma revalidate_weak: "revalidate seg_weak = seg_weak"
  unfolding revalidate_def seg_weak_def seg_calc_def Let_def
  by (simp add: prefer_123 lower_f1 u_nonempty)

theorem by_rules_math_witness:
  "math_signal (u ''1+2+3'') \<and> detect_explicit (u ''1+2+3'') = None \<and>
   by_rules sample_env (u ''1+2+3'') = mk_decision (u ''f3'') (85 / 100) [u ''math''] []"
  using by_rules_math [of "u ''1+2+3''" sample_env] math_123 explicit_123 by simp


section \<open>Explicit patterns\<close>

lemma no_f2_no_web: "re_search explicit_f2_at [19981, 32852, 32593] = False"
  by (simp add: explicit_f2_at_def EXPLICIT_F2_VERBS_def)

lemma f1_no_web: "search_any EXPLICIT_F1 [19981, 32852, 32593] = True"
  by (simp add: search_any_def EXPLICIT_F1_def alt_at_def)

lemma llm_no_web: "search_any EXPLICIT_LLM [19981, 32852, 32593] = True"
  by (simp add: search_any_def EXPLICIT_LLM_def alt_at_def)

lemma slots_no_web: "extract_slots [19981, 32852, 32593] = [(u ''provider'', PStr (u ''metaso''))]"
  by (simp add: extract_slots_def TIME_WORDS_def loc_weather_at_def loc_admin_at_def cjk_run_def
      opt_then_def alt_at_def ADMIN_SUFFIX_def WEATHER_TAIL_def is_cjk_def)

text \<open>
  Whatever the probe and the model say, a query with an explicit pattern gets the decision
  of the first pattern that matches, in the order knowledge base, web search, general
  responder, with confidence 0.98 and one reason.
\<close>

lemma route_explicit_first_match:
  assumes "detect_explicit q = Some d"
  shows "route env q = Inr d \<and> d_confidence d = 98 / 100 \<and> d_plan d = None
         \<and> (d_target d, d_reasons d) \<in>
             {(u ''f2'', [u ''explicit:f2'']), (u ''f1'', [u ''explicit:f1'']),
              (u ''llm'', [u ''explicit:llm''])}"
  using assms
  by (auto simp: route_def detect_explicit_def mk_decision_def split: if_splits)

text \<open>
  Claim C1, at the query U+4E0D U+8054 U+7F51 ("do not go online"). The query matches the
  explicit no-web pattern, whose tool is the general responder, but the web-search
  pattern is tested first and its word U+8054 U+7F51 is part of the query: whatever
  the other signals are, the router answers with the web search tool and the tag
  "explicit:f1".
\<close>

theorem route_no_web_phrase:
  "search_any EXPLICIT_LLM [19981, 32852, 32593] \<and>
   route env [19981, 32852, 32593] =
     Inr (mk_decision (u ''f1'') (98 / 100) [u ''explicit:f1'']
            [(u ''provider'', PStr (u ''metaso''))])"
  unfolding route_def detect_explicit_def no_f2_no_web f1_no_web slots_no_web llm_no_web
  by simp

section \<open>Suggestions\<close>

text \<open>
  Claim C2, at a multi-segment answer of the model whose only segment names an unknown
  tool. \<open>_llm_route\<close> drops the segment and returns a suggestion with an empty list of
  segments and no target; for a query without explicit pattern \<open>route\<close> then raises
  \<open>KeyError\<close> instead of returning a decision.
\<close>

theorem route_empty_segments_raises:
  "llm_route_obj \<lparr> o_mode = Some (u ''multi''),
       o_segments = Some [\<lparr> r_id = None, r_q = Some (u ''abc''), r_tool = Some (u ''search''),
                            r_confidence = Some (9 / 10), r_reasons = None,
                            r_needs_context = None, r_q_template = None \<rparr>],
       o_target = None, o_confidence = None, o_reasons = None \<rparr> = Some (Multi [] 0 []) \<and>
   route (sample_env \<lparr> llm_suggestion := Some (Multi [] 0 []) \<rparr>) (u ''abc'') = Inl KeyError"
  unfolding route_def explicit_abc
  by (simp add: llm_route_obj_def lower_def TOOLS_def sample_env_def governing_def u_simps)

lemma by_rules_no_plan: "d_plan (by_rules env q) = None"
  by (simp add: by_rules_def mk_decision_def Let_def split: prod.splits)

text \<open>
  Claim C3. Once no explicit pattern matched and a suggestion is there, a governing
  confidence below 0.6 (the single target's, or the primary segment's of a non-empty
  multi-segment decomposition) makes the decision the rule baseline with the tag
  "rule:override-llm-lowconf" appended to its reasons; the suggested target is not
  used, and the re-validated plan of a multi-segment suggestion is attached.
\<close>

theorem low_confidence_falls_back:
  assumes "detect_explicit q = None"
    and "llm_suggestion env = Some sug"
    and "case sug of
           Single tgt conf rs \<Rightarrow> conf < 6 / 10
         | Multi segs conf rs \<Rightarrow>
             segs \<noteq> [] \<and> s_confidence (primary_of (map revalidate segs)) < 6 / 10"
  shows "route env q =
           Inr ((by_rules env q)
                  \<lparr> d_reasons := d_reasons (by_rules env q) @ [u ''rule:override-llm-lowconf''],
                    d_plan := (case sug of
                                 Single tgt conf rs \<Rightarrow> None
                               | Multi segs conf rs \<Rightarrow> Some (map revalidate segs)) \<rparr>)"
proof (cases sug)
  case (Single tgt conf rs)
  with assms have "conf < 6 / 10" by simp
  moreover have "(by_rules env q) \<lparr> d_reasons := d_reasons (by_rules env q) @ [u ''rule:override-llm-lowconf''], d_plan := None \<rparr>
      = (by_rules env q) \<lparr> d_reasons := d_reasons (by_rules env q) @ [u ''rule:override-llm-lowconf''] \<rparr>"
    using by_rules_no_plan [of env q] by simp
  ultimately show ?thesis
    using assms(1,2) Single
    by (simp add: route_def governing_def with_plan_def rules_override_def Let_def)
next
  case (Multi segs conf rs)
  with assms have "segs \<noteq> []" "s_confidence (primary_of (map revalidate segs)) < 6 / 10" by simp_all
  then show ?thesis
    using assms(1,2) Multi
    by (simp add: route_def governing_def with_plan_def rules_override_def Let_def)
qed

theorem low_confidence_falls_back_witness:
  "detect_explicit (u ''1+2+3'') = None \<and>
   llm_suggestion (sample_env \<lparr> llm_suggestion := Some (Multi [seg_weak] 0 []) \<rparr>)
     = Some (Multi [seg_weak] 0 []) \<and>
   [seg_weak] \<noteq> [] \<and> s_confidence (primary_of (map revalidate [seg_weak])) < 6 / 10 \<and>
   route (sample_env \<lparr> llm_suggestion := Some (Multi [seg_weak] 0 []) \<rparr>) (u ''1+2+3'') =
     Inr \<lparr> d_target = u ''f3'', d_confidence = 85 / 100,
           d_reasons = [u ''math'', u ''rule:override-llm-lowconf''], d_slots = [],
           d_plan = Some [seg_weak] \<rparr>"
proof -
  let ?env = "sample_env \<lparr> llm_suggestion := Some (Multi [seg_weak] 0 []) \<rparr>"
  have h2: "llm_suggestion ?env = Some (Multi [seg_weak] 0 [])" by simp
  have c: "s_confidence (primary_of (map revalidate [seg_weak])) < 6 / 10"
    by (simp add: revalidate_weak primary_of_def) (simp add: seg_weak_def)
  have h3: "case Multi [seg_weak] 0 [] of
           Single tgt conf rs \<Rightarrow> conf < 6 / 10
         | Multi segs conf rs \<Rightarrow>
             segs \<noteq> [] \<and> s_confidence (primary_of (map revalidate segs)) < 6 / 10"
    using c by simp
  have b: "by_rules ?env (u ''1+2+3'') = mk_decision (u ''f3'') (85 / 100) [u ''math''] []"
    using math_123 by (simp add: by_rules_of_math)
  show ?thesis
    using low_confidence_falls_back [OF explicit_123 h2 h3] explicit_123 c
    unfolding b by (simp add: mk_decision_def revalidate_weak)
qed


section \<open>The primary segment and the step trace\<close>

lemma hd_insort_key:
  "hd (insort_key f x ys) = (if ys = [] \<or> f x \<le> f (hd ys) then x else hd ys)"
  by (cases ys) auto

lemma sort_key_nonempty: "xs \<noteq> [] \<Longrightarrow> sort_key f xs \<noteq> []"
  by (cases xs) (auto simp: neq_Nil_conv dest: arg_cong[where f=length])

lemma hd_sort_key_first_min:
  fixes f :: "'a \<Rightarrow> 'b::linorder"
  assumes "xs \<noteq> []"
  shows "\<exists>i<length xs. hd (sort_key f xs) = xs ! i
           \<and> (\<forall>j<length xs. f (xs ! i) \<le> f (xs ! j))
           \<and> (\<forall>j<i. f (xs ! i) < f (xs ! j))"
  using assms
proof (induction xs)
  case Nil
  then show ?case by simp
next
  case (Cons x rest)
  show ?case
  proof (cases "rest = []")
    case True
    then show ?thesis by simp
  next
    case False
    from Cons.IH[OF False] obtain i where i: "i < length rest"
      "hd (sort_key f rest) = rest ! i"
      "\<forall>j<length rest. f (rest ! i) \<le> f (rest ! j)"
      "\<forall>j<i. f (rest ! i) < f (rest ! j)" by blast
    have ne: "sort_key f rest \<noteq> []" using False by (rule sort_key_nonempty)
    show ?thesis
    proof (cases "f x \<le> f (rest ! i)")
      case True
      have h: "hd (sort_key f (x # rest)) = x"
        using True i(2) ne by (simp add: hd_insort_key)
      have "\<forall>j<length (x # rest). f x \<le> f ((x # rest) ! j)"
      proof (intro allI impI)
        fix j assume "j < length (x # rest)"
        then show "f x \<le> f ((x # rest) ! j)"
          using True i(3) by (cases j) (auto intro: order_trans)
      qed
      with h show ?thesis by (intro exI[of _ 0]) simp
    next
      case False
      then have lt: "f (rest ! i) < f x" by simp
      have h: "hd (sort_key f (x # rest)) = rest ! i"
        using False i(2) ne by (simp add: hd_insort_key)
      have a: "\<forall>j<length (x # rest). f (rest ! i) \<le> f ((x # rest) ! j)"
      proof (intro allI impI)
        fix j assume "j < length (x # rest)"
        then show "f (rest ! i) \<le> f ((x # rest) ! j)"
          using lt i(3) by (cases j) auto
      qed
      have b: "\<forall>j<Suc i. f (rest ! i) < f ((x # rest) ! j)"
      proof (intro allI impI)
        fix j assume "j < Suc i"
        then show "f (rest ! i) < f ((x # rest) ! j)"
          using lt i(4) by (cases j) auto
      qed
      from h a b i(1) show ?thesis by (intro exI[of _ "Suc i"]) simp
    qed
  qed
qed

lemma primary_first_max:
  assumes "plan \<noteq> []"
  shows "\<exists>i<length plan. primary_of plan = plan ! i
           \<and> (\<forall>j<length plan. s_confidence (plan ! j) \<le> s_confidence (plan ! i))
           \<and> (\<forall>j<i. s_confidence (plan ! j) < s_confidence (plan ! i))"
  using hd_sort_key_first_min[OF assms, of "\<lambda>x. - s_confidence x"]
  by (simp add: primary_of_def)

lemma run_step_trace:
  assumes "run_step env q k payload data (cx, steps, out) step w = (Inr (cx', steps', out'), w')"
  shows "\<exists>r. steps' = steps @ [r] \<and> rec_id r = step_sid step \<and> rec_tool r = s_tool step
           \<and> rec_output r = out'"
  using assms
  by (auto simp: run_step_def Let_def split: prod.splits sum.splits)

lemma run_plan_trace:
  assumes "run_plan env q k payload data plan (cx, steps, out) w = (Inr (cx', steps', out'), w')"
  shows "\<exists>new. steps' = steps @ new \<and> map rec_id new = map step_sid plan
           \<and> map rec_tool new = map s_tool plan"
  using assms
proof (induction plan arbitrary: cx steps out w)
  case Nil
  then show ?case by simp
next
  case (Cons step rest)
  from Cons.prems obtain cx1 steps1 out1 w1 where
    s1: "run_step env q k payload data (cx, steps, out) step w = (Inr (cx1, steps1, out1), w1)"
    and r1: "run_plan env q k payload data rest (cx1, steps1, out1) w1 = (Inr (cx', steps', out'), w')"
    by (auto split: prod.splits sum.splits)
  from run_step_trace[OF s1] obtain r where r: "steps1 = steps @ [r]" "rec_id r = step_sid step"
    "rec_tool r = s_tool step" by blast
  from Cons.IH[OF r1] obtain new where n: "steps' = steps1 @ new" "map rec_id new = map step_sid rest"
    "map rec_tool new = map s_tool rest" by blast
  show ?case
    using r n by (intro exI[of _ "r # new"]) simp
qed

lemma find_first_index:
  "i < length xs \<Longrightarrow> P (xs ! i) \<Longrightarrow> \<forall>j<i. \<not> P (xs ! j) \<Longrightarrow> find P xs = Some (xs ! i)"
proof (induction xs arbitrary: i)
  case Nil
  then show ?case by simp
next
  case (Cons x xs)
  show ?case
  proof (cases i)
    case 0
    with Cons.prems show ?thesis by simp
  next
    case (Suc n)
    with Cons.prems have "\<not> P x" by auto
    moreover have "find P xs = Some (xs ! n)"
      using Cons.prems Suc by (intro Cons.IH) auto
    ultimately show ?thesis using Suc by simp
  qed
qed

lemma orchestrate_plan_ok:
  assumes "d_plan decision = Some plan" and "plan \<noteq> []"
    and "run_plan app q k (base_payload decision q k data) data plan (Map.empty, [], PNone) w
           = (Inr (cx, steps, out), w')"
  shows "orchestrate app decision q k data w =
           (Inr \<lparr> resp_query = q, resp_decision = decision,
                  resp_results =
                    dset (u ''steps'') (Steps steps)
                      [(s_tool (primary_of plan),
                        Items (primary_items_of (s_tool (primary_of plan)) steps))],
                  resp_error = error_of out \<rparr>, w')"
  using assms by (cases plan) (simp_all add: orchestrate_def Let_def)


lemma route_multi:
  assumes "detect_explicit q = None"
    and "llm_suggestion env = Some (Multi segs c0 rs0)"
    and "segs \<noteq> []"
  shows "route env q =
           Inr ((if s_confidence (primary_of (map revalidate segs)) < 6 / 10
                 then rules_override env q
                 else reconcile env q (s_tool (primary_of (map revalidate segs)))
                        (s_confidence (primary_of (map revalidate segs)))
                        (u ''llm:multi-primary'' # s_reasons (primary_of (map revalidate segs))))
                \<lparr> d_plan := Some (map revalidate segs) \<rparr>)"
  using assms by (simp add: route_def governing_def with_plan_def Let_def)

lemmas step_eval_defs = run_step_def step_sid_def step_query_def step_payload_def
      base_payload_def plan_decision_def sample_data_def dupdate_def dget_def dispatch_def
      REGISTRY_def sample_app_def sample_tools_def ok_handler_def attr_get_def Let_def
      sample_out_def sample_rec_def sample_entry_def broken_app_def raising_handler_def u_simps

lemma step_calc:
  "run_step sample_app (u ''1+2+3'') 5 (base_payload (plan_decision t p) (u ''1+2+3'') 5 sample_data)
     sample_data (cx, steps, out) seg_calc w =
   (Inr (cx(step_sid seg_calc \<mapsto> sample_entry seg_calc), steps @ [sample_rec seg_calc],
         sample_out (u ''f1'') (u ''1+2+3'')), w + 1)"
  by (simp add: step_eval_defs seg_calc_def)

lemma step_news:
  "run_step sample_app (u ''1+2+3'') 5 (base_payload (plan_decision t p) (u ''1+2+3'') 5 sample_data)
     sample_data (cx, steps, out) seg_news w =
   (Inr (cx(step_sid seg_news \<mapsto> sample_entry seg_news), steps @ [sample_rec seg_news],
         sample_out (u ''f1'') (u ''xyz'')), w + 1)"
  by (simp add: step_eval_defs seg_news_def)

lemma step_chat:
  "run_step sample_app (u ''1+2+3'') 5 (base_payload (plan_decision t p) (u ''1+2+3'') 5 sample_data)
     sample_data (cx, steps, out) seg_chat w =
   (Inr (cx(step_sid seg_chat \<mapsto> sample_entry seg_chat), steps @ [sample_rec seg_chat],
         sample_out (u ''llm'') (u ''abc'')), w + 1)"
  by (simp add: step_eval_defs seg_chat_def)





lemma plan_calc_chat:
  "run_plan sample_app (u ''1+2+3'') 5 (base_payload (plan_decision t p) (u ''1+2+3'') 5 sample_data)
     sample_data [seg_calc, seg_chat] (Map.empty, [], PNone) 0 =
   (Inr ([step_sid seg_calc \<mapsto> sample_entry seg_calc, step_sid seg_chat \<mapsto> sample_entry seg_chat],
         [sample_rec seg_calc, sample_rec seg_chat], sample_out (u ''llm'') (u ''abc'')), 2)"
  by (simp add: step_calc step_chat)

lemma plan_news_calc:
  "run_plan sample_app (u ''1+2+3'') 5 (base_payload (plan_decision t p) (u ''1+2+3'') 5 sample_data)
     sample_data [seg_news, seg_calc] (Map.empty, [], PNone) 0 =
   (Inr ([step_sid seg_news \<mapsto> sample_entry seg_news, step_sid seg_calc \<mapsto> sample_entry seg_calc],
         [sample_rec seg_news, sample_rec seg_calc], sample_out (u ''f1'') (u ''1+2+3'')), 2)"
  by (simp add: step_calc step_news)



lemma route_calc_chat:
  "route (sample_env \<lparr> llm_suggestion := Some (Multi [seg_calc, seg_chat] 0 []) \<rparr>) (u ''1+2+3'')
     = Inr (plan_decision (u ''f3'') [seg_calc, seg_chat])"
proof -
  have t: "s_tool seg_chat = u ''llm''" "s_confidence seg_chat = 95 / 100" "s_reasons seg_chat = []"
    by (simp_all add: seg_chat_def)
  have "governing (Multi [seg_calc, seg_chat] 0 []) =
          Inr ([seg_calc, seg_chat], u ''llm'', 95 / 100, [u ''llm:multi-primary''])"
    by (simp add: governing_def revalidate_calc revalidate_chat primary_calc_chat t)
  then show ?thesis
    unfolding route_def explicit_123
    by (simp add: with_plan_def reconcile_llm_123 mk_decision_def plan_decision_def)
qed

lemma primary_news_calc: "primary_of [seg_news, seg_calc] = seg_calc"
  by (simp add: primary_of_def seg_calc_def seg_news_def)

text \<open>
  Claim C7 as stated fails: the decision of a multi-segment suggestion need not have the
  target and confidence of the primary segment. For the query "1+2+3" and a single
  segment with tool f1 and confidence 0.9 the primary segment is that segment, and the
  decision has target f3 and confidence 0.85, because the math signal outweighs the
  suggested search; its reasons are the tag "llm:multi-primary", the primary's reasons
  and a rule tag.
\<close>

theorem decision_differs_from_primary:
  "primary_of (map revalidate [seg_calc]) = seg_calc \<and>
   s_tool seg_calc = u ''f1'' \<and> s_confidence seg_calc = 9 / 10 \<and>
   route (sample_env \<lparr> llm_suggestion := Some (Multi [seg_calc] 0 []) \<rparr>) (u ''1+2+3'') =
     Inr \<lparr> d_target = u ''f3'', d_confidence = 85 / 100,
           d_reasons = [u ''llm:multi-primary'', u ''rule:math''], d_slots = [],
           d_plan = Some [seg_calc] \<rparr>"
proof -
  have t: "s_tool seg_calc = u ''f1''" "s_confidence seg_calc = 9 / 10" "s_reasons seg_calc = []"
    by (simp_all add: seg_calc_def)
  have "governing (Multi [seg_calc] 0 []) =
          Inr ([seg_calc], u ''f1'', 9 / 10, [u ''llm:multi-primary''])"
    by (simp add: governing_def revalidate_calc primary_calc t)
  then have "route (sample_env \<lparr> llm_suggestion := Some (Multi [seg_calc] 0 []) \<rparr>) (u ''1+2+3'') =
     Inr \<lparr> d_target = u ''f3'', d_confidence = 85 / 100,
           d_reasons = [u ''llm:multi-primary'', u ''rule:math''], d_slots = [],
           d_plan = Some [seg_calc] \<rparr>"
    unfolding route_def explicit_123
    by (simp add: with_plan_def reconcile_f1_123 mk_decision_def)
  then show ?thesis
    by (simp add: revalidate_calc primary_calc t)
qed

text \<open>
  Claim C7, amended. For a non-empty multi-segment decomposition (no explicit pattern
  matched) the primary segment is the one of highest confidence, the earliest of them
  when several share it. Its tool, its confidence and its reasons behind the tag
  "llm:multi-primary" are what the merger weighs: the decision is the rule baseline with
  the override tag when that confidence is below 0.6, and the outcome of the
  reconciliation otherwise, in both cases with the re-validated plan attached in the
  original order of the segments. When no step raises, the orchestrator answers with a
  trace that has one record per step, with the ids and tools of the steps in that order.
\<close>

theorem multi_primary_and_trace_order:
  assumes "detect_explicit q = None"
    and "llm_suggestion env = Some (Multi segs c0 rs0)"
    and "segs \<noteq> []"
    and "route env q = Inr d"
    and "run_plan app q k (base_payload d q k data) data (map revalidate segs) (Map.empty, [], PNone) w
           = (Inr (cx, steps, out), w')"
  shows "(\<exists>i<length segs.
            primary_of (map revalidate segs) = map revalidate segs ! i
            \<and> (\<forall>j<length segs. s_confidence (segs ! j) \<le> s_confidence (segs ! i))
            \<and> (\<forall>j<i. s_confidence (segs ! j) < s_confidence (segs ! i)))
       \<and> d = (if s_confidence (primary_of (map revalidate segs)) < 6 / 10
              then rules_override env q
              else reconcile env q (s_tool (primary_of (map revalidate segs)))
                     (s_confidence (primary_of (map revalidate segs)))
                     (u ''llm:multi-primary'' # s_reasons (primary_of (map revalidate segs))))
             \<lparr> d_plan := Some (map revalidate segs) \<rparr>
       \<and> orchestrate app d q k data w =
           (Inr \<lparr> resp_query = q, resp_decision = d,
                  resp_results =
                    dset (u ''steps'') (Steps steps)
                      [(s_tool (primary_of (map revalidate segs)),
                        Items (primary_items_of (s_tool (primary_of (map revalidate segs))) steps))],
                  resp_error = error_of out \<rparr>, w')
       \<and> map rec_id steps = map step_sid (map revalidate segs)
       \<and> map rec_tool steps = map s_tool (map revalidate segs)"
proof -
  let ?plan = "map revalidate segs"
  have ne: "?plan \<noteq> []" using assms(3) by simp
  have conf: "s_confidence (?plan ! j) = s_confidence (segs ! j)" if "j < length segs" for j
    using that by (simp add: revalidate_def Let_def)
  from primary_first_max[OF ne] obtain i where i: "i < length ?plan"
    "primary_of ?plan = ?plan ! i"
    "\<forall>j<length ?plan. s_confidence (?plan ! j) \<le> s_confidence (?plan ! i)"
    "\<forall>j<i. s_confidence (?plan ! j) < s_confidence (?plan ! i)" by blast
  have p1: "\<exists>i<length segs.
            primary_of ?plan = ?plan ! i
            \<and> (\<forall>j<length segs. s_confidence (segs ! j) \<le> s_confidence (segs ! i))
            \<and> (\<forall>j<i. s_confidence (segs ! j) < s_confidence (segs ! i))"
  proof (intro exI[of _ i] conjI allI impI)
    show "i < length segs" using i(1) by simp
    show "primary_of ?plan = ?plan ! i" by (rule i(2))
  next
    fix j assume j: "j < length segs"
    with i(1,3) conf[of j] conf[of i] show "s_confidence (segs ! j) \<le> s_confidence (segs ! i)"
      by (metis length_map)
  next
    fix j assume j: "j < i"
    with i(1,4) conf[of j] conf[of i] show "s_confidence (segs ! j) < s_confidence (segs ! i)"
      by (metis length_map less_trans)
  qed
  have p2: "d = (if s_confidence (primary_of ?plan) < 6 / 10
              then rules_override env q
              else reconcile env q (s_tool (primary_of ?plan))
                     (s_confidence (primary_of ?plan))
                     (u ''llm:multi-primary'' # s_reasons (primary_of ?plan)))
             \<lparr> d_plan := Some ?plan \<rparr>"
    using route_multi[OF assms(1,2,3)] assms(4) by simp
  then have dp: "d_plan d = Some ?plan" by (simp split: if_splits)
  from run_plan_trace[OF assms(5)] have tr: "map rec_id steps = map step_sid ?plan"
    "map rec_tool steps = map s_tool ?plan" by auto
  note p3 = orchestrate_plan_ok[OF dp ne assms(5)]
  from p1 p2 p3 tr show ?thesis by blast
qed

theorem multi_primary_and_trace_order_witness:
  "detect_explicit (u ''1+2+3'') = None \<and>
   [seg_calc, seg_chat] \<noteq> [] \<and>
   route (sample_env \<lparr> llm_suggestion := Some (Multi [seg_calc, seg_chat] 0 []) \<rparr>) (u ''1+2+3'')
     = Inr (plan_decision (u ''f3'') [seg_calc, seg_chat]) \<and>
   run_plan sample_app (u ''1+2+3'') 5
     (base_payload (plan_decision (u ''f3'') [seg_calc, seg_chat]) (u ''1+2+3'') 5 sample_data)
     sample_data (map revalidate [seg_calc, seg_chat]) (Map.empty, [], PNone) 0 =
   (Inr ([step_sid seg_calc \<mapsto> sample_entry seg_calc, step_sid seg_chat \<mapsto> sample_entry seg_chat],
         [sample_rec seg_calc, sample_rec seg_chat], sample_out (u ''llm'') (u ''abc'')), 2) \<and>
   primary_of (map revalidate [seg_calc, seg_chat]) = seg_chat \<and>
   map rec_tool [sample_rec seg_calc, sample_rec seg_chat] = [u ''f1'', u ''llm''] \<and>
   map rec_id [sample_rec seg_calc, sample_rec seg_chat] = [u ''s1'', u ''s2'']"
proof -
  let ?env = "sample_env \<lparr> llm_suggestion := Some (Multi [seg_calc, seg_chat] 0 []) \<rparr>"
  have h2: "llm_suggestion ?env = Some (Multi [seg_calc, seg_chat] 0 [])" by simp
  have h3: "[seg_calc, seg_chat] \<noteq> []" by simp
  have rv: "map revalidate [seg_calc, seg_chat] = [seg_calc, seg_chat]"
    by (simp add: revalidate_calc revalidate_chat)
  have h5: "run_plan sample_app (u ''1+2+3'') 5
     (base_payload (plan_decision (u ''f3'') [seg_calc, seg_chat]) (u ''1+2+3'') 5 sample_data)
     sample_data (map revalidate [seg_calc, seg_chat]) (Map.empty, [], PNone) 0 =
   (Inr ([step_sid seg_calc \<mapsto> sample_entry seg_calc, step_sid seg_chat \<mapsto> sample_entry seg_chat],
         [sample_rec seg_calc, sample_rec seg_chat], sample_out (u ''llm'') (u ''abc'')), 2)"
    unfolding rv by (rule plan_calc_chat)
  have ids: "map step_sid [seg_calc, seg_chat] = [u ''s1'', u ''s2'']"
    by (simp add: step_sid_def seg_calc_def seg_chat_def u_nonempty)
  have tls: "map s_tool [seg_calc, seg_chat] = [u ''f1'', u ''llm'']"
    by (simp add: seg_calc_def seg_chat_def)
  from multi_primary_and_trace_order [OF explicit_123 h2 h3 route_calc_chat h5]
  have "map rec_id [sample_rec seg_calc, sample_rec seg_chat] = [u ''s1'', u ''s2'']"
    and "map rec_tool [sample_rec seg_calc, sample_rec seg_chat] = [u ''f1'', u ''llm'']"
    unfolding rv ids tls by blast+
  moreover have "primary_of (map revalidate [seg_calc, seg_chat]) = seg_chat"
    unfolding rv by (rule primary_calc_chat)
  ultimately show ?thesis
    using explicit_123 h3 route_calc_chat h5 by blast
qed

text \<open>
  Claim C9. Let the steps of a plan have known tools, let no step raise, and let step
  \<open>i\<close> be the first in plan order whose tool is the primary tool. Then the response
  holds two results: under the primary tool the items of the output of step \<open>i\<close>, and
  under "steps" the whole trace. The items of any later step, also one with the same
  tool, occur in the trace only.
\<close>

theorem primary_items_first_step:
  assumes "d_plan decision = Some plan" and "plan \<noteq> []"
    and "set (map s_tool plan) \<subseteq> set TOOLS"
    and "run_plan app q k (base_payload decision q k data) data plan (Map.empty, [], PNone) w
           = (Inr (cx, steps, out), w')"
    and "i < length plan"
    and "s_tool (plan ! i) = s_tool (primary_of plan)"
    and "\<forall>j<i. s_tool (plan ! j) \<noteq> s_tool (primary_of plan)"
  shows "orchestrate app decision q k data w =
           (Inr \<lparr> resp_query = q, resp_decision = decision,
                  resp_results =
                    [(s_tool (primary_of plan), Items (items_of (rec_output (steps ! i)))),
                     (u ''steps'', Steps steps)],
                  resp_error = error_of out \<rparr>, w')
         \<and> length steps = length plan
         \<and> rec_id (steps ! i) = step_sid (plan ! i)
         \<and> rec_tool (steps ! i) = s_tool (plan ! i)"
proof -
  let ?pt = "s_tool (primary_of plan)"
  from run_plan_trace[OF assms(4)] have tr: "map rec_id steps = map step_sid plan"
    "map rec_tool steps = map s_tool plan" by auto
  then have len: "length steps = length plan" by (metis length_map)
  have tool: "rec_tool (steps ! j) = s_tool (plan ! j)" if "j < length plan" for j
    using that tr(2) len by (metis nth_map)
  have rid: "rec_id (steps ! i) = step_sid (plan ! i)"
    using assms(5) tr(1) len by (metis nth_map)
  have "find (\<lambda>r. rec_tool r = ?pt) steps = Some (steps ! i)"
  proof (rule find_first_index)
    show "i < length steps" using assms(5) len by simp
    show "rec_tool (steps ! i) = ?pt" using tool[OF assms(5)] assms(6) by simp
    show "\<forall>j<i. rec_tool (steps ! j) \<noteq> ?pt"
      using assms(5,7) tool by auto
  qed
  then have items: "primary_items_of ?pt steps = items_of (rec_output (steps ! i))"
    by (simp add: primary_items_of_def)
  have "?pt \<in> set TOOLS" using assms(3,5,6) by (metis nth_mem length_map nth_map subsetD)
  then have ns: "?pt \<noteq> u ''steps''" by (auto simp: TOOLS_def u_simps)
  show ?thesis
    unfolding orchestrate_plan_ok[OF assms(1,2,4)] items
    using ns len rid tool[OF assms(5)] by simp
qed

theorem primary_items_first_step_witness:
  "d_plan (plan_decision (u ''f1'') [seg_news, seg_calc]) = Some [seg_news, seg_calc] \<and>
   [seg_news, seg_calc] \<noteq> [] \<and>
   set (map s_tool [seg_news, seg_calc]) \<subseteq> set TOOLS \<and>
   run_plan sample_app (u ''1+2+3'') 5
     (base_payload (plan_decision (u ''f1'') [seg_news, seg_calc]) (u ''1+2+3'') 5 sample_data)
     sample_data [seg_news, seg_calc] (Map.empty, [], PNone) 0 =
   (Inr ([step_sid seg_news \<mapsto> sample_entry seg_news, step_sid seg_calc \<mapsto> sample_entry seg_calc],
         [sample_rec seg_news, sample_rec seg_calc], sample_out (u ''f1'') (u ''1+2+3'')), 2) \<and>
   primary_of [seg_news, seg_calc] = seg_calc \<and>
   s_tool ([seg_news, seg_calc] ! 0) = s_tool (primary_of [seg_news, seg_calc]) \<and>
   orchestrate sample_app (plan_decision (u ''f1'') [seg_news, seg_calc]) (u ''1+2+3'') 5 sample_data 0 =
     (Inr \<lparr> resp_query = u ''1+2+3'',
            resp_decision = plan_decision (u ''f1'') [seg_news, seg_calc],
            resp_results = [(u ''f1'', Items (PList [PStr (u ''xyz'')])),
                            (u ''steps'', Steps [sample_rec seg_news, sample_rec seg_calc])],
            resp_error = None \<rparr>, 2)"
proof -
  let ?plan = "[seg_news, seg_calc]"
  let ?d = "plan_decision (u ''f1'') ?plan"
  have h1: "d_plan ?d = Some ?plan" by (simp add: plan_decision_def)
  have h2: "?plan \<noteq> []" by simp
  have h3: "set (map s_tool ?plan) \<subseteq> set TOOLS"
    by (simp add: seg_news_def seg_calc_def TOOLS_def)
  have h5: "0 < length ?plan" by simp
  have h6: "s_tool (?plan ! 0) = s_tool (primary_of ?plan)"
    unfolding primary_news_calc by (simp add: seg_news_def seg_calc_def)
  have h7: "\<forall>j<0. s_tool (?plan ! j) \<noteq> s_tool (primary_of ?plan)" by simp
  have it: "items_of (rec_output ([sample_rec seg_news, sample_rec seg_calc] ! 0)) = PList [PStr (u ''xyz'')]"
    by (simp add: items_of_def sample_rec_def sample_out_def seg_news_def attr_get_def dget_def u_simps)
  have er: "error_of (sample_out (u ''f1'') (u ''1+2+3'')) = None"
    by (simp add: error_of_def sample_out_def dget_def u_simps)
  have pt: "s_tool (primary_of ?plan) = u ''f1''"
    unfolding primary_news_calc by (simp add: seg_calc_def)
  from primary_items_first_step [OF h1 h2 h3 plan_news_calc h5 h6 h7]
  have "orchestrate sample_app ?d (u ''1+2+3'') 5 sample_data 0 =
     (Inr \<lparr> resp_query = u ''1+2+3'', resp_decision = ?d,
            resp_results = [(u ''f1'', Items (PList [PStr (u ''xyz'')])),
                            (u ''steps'', Steps [sample_rec seg_news, sample_rec seg_calc])],
            resp_error = None \<rparr>, 2)"
    unfolding it er pt by blast
  with h1 h2 h3 h6 plan_news_calc primary_news_calc show ?thesis by blast
qed

section \<open>Exceptions during a plan\<close>




section \<open>Template substitution\<close>

lemma sub_no_open: "123 \<notin> set pre \<Longrightarrow> sub_template rp cx (pre @ t) = pre @ sub_template rp cx t"
  by (induction pre) auto

lemma dropWhile_no_close: "125 \<notin> set cs \<Longrightarrow> dropWhile (\<lambda>x. x \<noteq> (125::nat)) cs = []"
  by (induction cs) auto

lemma no_close_dropWhile: "dropWhile (\<lambda>x. x \<noteq> (125::nat)) cs = [] \<Longrightarrow> 125 \<notin> set cs"
  by (induction cs) (auto split: if_splits)

lemma takeWhile_key: "125 \<notin> set key \<Longrightarrow> takeWhile (\<lambda>x. x \<noteq> (125::nat)) (key @ 125 # rest) = key"
  by (induction key) auto

lemma dropWhile_key:
  "125 \<notin> set key \<Longrightarrow> dropWhile (\<lambda>x. x \<noteq> (125::nat)) (key @ 125 # rest) = 125 # rest"
  by (induction key) auto

lemma sub_no_close: "125 \<notin> set t \<Longrightarrow> sub_template rp cx t = t"
proof (induction t)
  case Nil
  then show ?case by simp
next
  case (Cons c cs)
  then have "dropWhile (\<lambda>x. x \<noteq> 125) cs = []" by (auto intro: dropWhile_no_close)
  with Cons show ?case by simp
qed

lemma sub_token:
  assumes "key \<noteq> []" and "125 \<notin> set key"
  shows "sub_template rp cx (123 # key @ 125 # rest) = repl rp cx key @ sub_template rp cx rest"
  using assms(1) by (simp add: takeWhile_key[OF assms(2)] dropWhile_key[OF assms(2)])

lemma repl_cases:
  "repl rp cx key = 123 # key @ [125] \<or>
   (\<exists>sid e. cx sid = Some e \<and> (repl rp cx key = py_str rp (e_ans e) \<or> repl rp cx key = py_str rp (e_text e)))"
  by (auto simp: repl_def Let_def entry_get_def split: option.splits)

lemma sub_idem:
  assumes "brace_free rp cx"
  shows "sub_template rp cx (sub_template rp cx t) = sub_template rp cx t"
  using assms
proof (induction rp cx t rule: sub_template.induct)
  case (1 rp cx)
  then show ?case by simp
next
  case (2 rp cx c cs)
  let ?key = "takeWhile (\<lambda>x. x \<noteq> 125) cs"
  let ?rest = "dropWhile (\<lambda>x. x \<noteq> 125) cs"
  show ?case
  proof (cases "c = 123 \<and> ?key \<noteq> [] \<and> ?rest \<noteq> []")
    case True
    then have IH: "sub_template rp cx (sub_template rp cx (tl ?rest)) = sub_template rp cx (tl ?rest)"
      using 2 by simp
    have eq: "sub_template rp cx (c # cs) = repl rp cx ?key @ sub_template rp cx (tl ?rest)"
      using True by simp
    have nk: "125 \<notin> set ?key" by (auto dest: set_takeWhileD)
    from repl_cases[of rp cx ?key] show ?thesis
    proof
      assume r: "repl rp cx ?key = 123 # ?key @ [125]"
      have "sub_template rp cx (123 # ?key @ 125 # sub_template rp cx (tl ?rest))
              = repl rp cx ?key @ sub_template rp cx (sub_template rp cx (tl ?rest))"
        using True nk by (intro sub_token) auto
      then show ?thesis unfolding eq using r IH by simp
    next
      assume "\<exists>sid e. cx sid = Some e \<and> (repl rp cx ?key = py_str rp (e_ans e) \<or> repl rp cx ?key = py_str rp (e_text e))"
      then have "123 \<notin> set (repl rp cx ?key)"
        using "2.prems" by (auto simp: brace_free_def)
      then show ?thesis unfolding eq using IH by (simp add: sub_no_open)
    qed
  next
    case False
    then have IH: "sub_template rp cx (sub_template rp cx cs) = sub_template rp cx cs"
      using 2 by simp
    have eq: "sub_template rp cx (c # cs) = c # sub_template rp cx cs"
      using False by auto
    show ?thesis
    proof (cases "c = 123")
      case c: True
      with False consider "?key = []" | "?rest = []" by auto
      then show ?thesis
      proof cases
        case 1
        then have "cs = [] \<or> hd cs = 125" by (cases cs) (auto split: if_splits)
        then show ?thesis
        proof
          assume "cs = []" then show ?thesis using c by simp
        next
          assume h: "hd cs = 125"
          show ?thesis
          proof (cases cs)
            case Nil then show ?thesis using c by simp
          next
            case (Cons d ds)
            with h have "sub_template rp cx cs = 125 # sub_template rp cx ds" by simp
            then show ?thesis unfolding eq using IH c by simp
          qed
        qed
      next
        case 2
        then have nc: "125 \<notin> set cs" by (rule no_close_dropWhile)
        then have "125 \<notin> set (c # cs)" using c by simp
        then have "sub_template rp cx (c # cs) = c # cs" by (rule sub_no_close)
        then show ?thesis by simp
      qed
    next
      case False
      then show ?thesis unfolding eq using IH by simp
    qed
  qed
qed

lemma repl_no_dot: "46 \<notin> set key \<Longrightarrow> repl rp cx key = 123 # key @ [125]"
  by (simp add: repl_def)

lemma repl_split:
  assumes "46 \<notin> set sid"
  shows "repl rp cx (sid @ 46 # var) =
           (case cx sid of
              None \<Rightarrow> 123 # (sid @ 46 # var) @ [125]
            | Some e \<Rightarrow>
                if var = u ''ans'' then py_str rp (e_ans e)
                else if var = u ''text'' then py_str rp (e_text e)
                else 123 # (sid @ 46 # var) @ [125])"
proof -
  have tw: "takeWhile (\<lambda>c. c \<noteq> (46::nat)) (sid @ 46 # var) = sid"
    using assms by (induction sid) auto
  have dw: "dropWhile (\<lambda>c. c \<noteq> (46::nat)) (sid @ 46 # var) = 46 # var"
    using assms by (induction sid) auto
  show ?thesis
    by (simp add: repl_def Let_def tw dw entry_get_def split: option.splits)
qed

lemma split_at_close:
  assumes "125 \<in> set cs"
  shows "cs = takeWhile (\<lambda>x. x \<noteq> (125::nat)) cs @ 125 # tl (dropWhile (\<lambda>x. x \<noteq> 125) cs)"
  using assms by (induction cs) auto

lemma sub_empty_key: "sub_template rp cx (123 # 125 # rest) = 123 # 125 # sub_template rp cx rest"
  by simp

lemma sub_open_no_close:
  assumes "125 \<notin> set s"
  shows "sub_template rp cx (123 # s) = 123 # s"
proof -
  from assms have "125 \<notin> set (123 # s)" by simp
  then show ?thesis by (rule sub_no_close)
qed

lemma scan_equations_determine:
  fixes f :: "ustr \<Rightarrow> ustr"
  assumes e0: "f [] = []"
    and e1: "\<And>c cs. c \<noteq> 123 \<Longrightarrow> f (c # cs) = c # f cs"
    and e2: "\<And>key rest. key \<noteq> [] \<Longrightarrow> 125 \<notin> set key \<Longrightarrow>
               f (123 # key @ 125 # rest) = repl rp cx key @ f rest"
    and e3: "\<And>rest. f (123 # 125 # rest) = 123 # 125 # f rest"
    and e4: "\<And>s. 125 \<notin> set s \<Longrightarrow> f (123 # s) = 123 # s"
  shows "f t = sub_template rp cx t"
proof (induction t rule: length_induct)
  case (1 t)
  show ?case
  proof (cases t)
    case Nil
    then show ?thesis using e0 by simp
  next
    case (Cons c cs)
    show ?thesis
    proof (cases "c = 123")
      case False
      have "f cs = sub_template rp cx cs" using 1 Cons by simp
      then show ?thesis using False Cons e1 by simp
    next
      case c: True
      show ?thesis
      proof (cases "125 \<in> set cs")
        case False
        then show ?thesis using c Cons e4 sub_open_no_close by simp
      next
        case True
        let ?key = "takeWhile (\<lambda>x. x \<noteq> (125::nat)) cs"
        let ?rest = "tl (dropWhile (\<lambda>x. x \<noteq> (125::nat)) cs)"
        have sp: "cs = ?key @ 125 # ?rest" using True by (rule split_at_close)
        have nk: "125 \<notin> set ?key" by (auto dest: set_takeWhileD)
        have "length ?rest < length t"
        proof -
          have "length cs = length ?key + Suc (length ?rest)"
            by (subst sp) simp
          then show ?thesis using Cons by simp
        qed
        then have ih: "f ?rest = sub_template rp cx ?rest" using 1 by simp
        show ?thesis
        proof (cases "?key = []")
          case True
          then have cs: "cs = 125 # ?rest" using sp by simp
          have "f (123 # 125 # ?rest) = 123 # 125 # sub_template rp cx ?rest"
            using e3 ih by simp
          moreover have "sub_template rp cx (123 # 125 # ?rest) = 123 # 125 # sub_template rp cx ?rest"
            by (rule sub_empty_key)
          ultimately have "f (123 # 125 # ?rest) = sub_template rp cx (123 # 125 # ?rest)" by simp
          then show ?thesis using Cons c cs by metis
        next
          case False
          have "f (123 # ?key @ 125 # ?rest) = repl rp cx ?key @ sub_template rp cx ?rest"
            using e2[OF False nk] ih by simp
          moreover have "sub_template rp cx (123 # ?key @ 125 # ?rest) = repl rp cx ?key @ sub_template rp cx ?rest"
            using False nk by (rule sub_token)
          ultimately have "f (123 # ?key @ 125 # ?rest) = sub_template rp cx (123 # ?key @ 125 # ?rest)"
            by simp
          then show ?thesis using Cons c sp by metis
        qed
      qed
    qed
  qed
qed

text \<open>
  The five equations on the scan in \<open>scan_equations_determine\<close> cover every template:
  it is empty, or starts with another character than the opening brace, or starts with
  an opening brace that is followed by no closing brace at all, by a closing brace at
  once, or by a non-empty key and a closing brace. So they describe the substitution
  completely.
\<close>

lemma brace_free_plain: "brace_free no_repr ctx_plain"
  by (auto simp: brace_free_def ctx_plain_def dec.simps u_simps split: if_splits)

lemma ctx_plain_s1: "ctx_plain (u ''s1'') = Some \<lparr> e_ans = PInt 42, e_text = PStr (u ''x'') \<rparr>"
  by (simp add: ctx_plain_def)

lemma ctx_plain_s2: "ctx_plain (u ''s2'') = None"
  by (simp add: ctx_plain_def u_simps)

lemma str_42: "py_str no_repr (PInt 42) = u ''42''"
  by (simp add: dec.simps u_simps)

text \<open>
  Claim C4 as stated fails. With the answer of step s1 recorded as the text
  "{s1.text}", the template "{s1.ans}" becomes "{s1.text}", and substituting once more
  gives "x": the substitution is not idempotent. The fields of the context map are named
  \<open>ans\<close> and \<open>text\<close>: the token "{s1.answer}" is left as it is although s1 is recorded.
\<close>

theorem substitution_not_idempotent:
  "sub_template no_repr ctx_nested (u ''{s1.ans}'') = u ''{s1.text}'' \<and>
   sub_template no_repr ctx_nested (sub_template no_repr ctx_nested (u ''{s1.ans}'')) = u ''x'' \<and>
   sub_template no_repr ctx_nested (u ''{s1.answer}'') = u ''{s1.answer}''"
  by (simp add: repl_def entry_get_def ctx_nested_def Let_def u_simps)

text \<open>
  Claim C4, amended. The substitution is a total function of the template, given by a
  scan from the left. A character other than the opening brace is kept. An opening
  brace followed by a non-empty key without closing brace and then by a closing brace is
  a token: it is replaced, and the scan goes on behind its closing brace. An opening
  brace followed at once by a closing brace is kept with it, and an opening brace with
  no closing brace behind it is kept with all that follows. A token whose key has no dot,
  whose step id (the part before the first dot) is not in the context map, or whose
  field is neither \<open>ans\<close> nor \<open>text\<close> is replaced by itself; a token stepId.ans or
  stepId.text of a recorded step is replaced by the \<open>str\<close> of the recorded value.
  Applying the substitution a second time gives the same string whenever no recorded
  value, rendered by \<open>str\<close>, contains an opening brace.
\<close>

theorem template_substitution:
  "sub_template rp cx [] = []
   \<and> (c \<noteq> 123 \<longrightarrow> sub_template rp cx (c # cs) = c # sub_template rp cx cs)
   \<and> (key \<noteq> [] \<and> 125 \<notin> set key \<longrightarrow>
        sub_template rp cx (123 # key @ 125 # rest) = repl rp cx key @ sub_template rp cx rest)
   \<and> sub_template rp cx (123 # 125 # rest') = 123 # 125 # sub_template rp cx rest'
   \<and> (125 \<notin> set s \<longrightarrow> sub_template rp cx (123 # s) = 123 # s)
   \<and> (46 \<notin> set key' \<longrightarrow> repl rp cx key' = 123 # key' @ [125])
   \<and> (46 \<notin> set sid \<and> cx sid = None \<longrightarrow>
        repl rp cx (sid @ 46 # var) = 123 # (sid @ 46 # var) @ [125])
   \<and> (46 \<notin> set sid' \<and> cx sid' = Some e \<longrightarrow>
        repl rp cx (sid' @ 46 # var') =
          (if var' = u ''ans'' then py_str rp (e_ans e)
           else if var' = u ''text'' then py_str rp (e_text e)
           else 123 # (sid' @ 46 # var') @ [125]))
   \<and> (brace_free rp cx \<longrightarrow>
        sub_template rp cx (sub_template rp cx t) = sub_template rp cx t)"
proof (intro conjI impI)
  show "sub_template rp cx [] = []" by simp
next
  assume "c \<noteq> 123"
  then show "sub_template rp cx (c # cs) = c # sub_template rp cx cs" by simp
next
  assume "key \<noteq> [] \<and> 125 \<notin> set key"
  then show "sub_template rp cx (123 # key @ 125 # rest) = repl rp cx key @ sub_template rp cx rest"
    by (intro sub_token) simp_all
next
  show "sub_template rp cx (123 # 125 # rest') = 123 # 125 # sub_template rp cx rest'"
    by (rule sub_empty_key)
next
  assume "125 \<notin> set s"
  then show "sub_template rp cx (123 # s) = 123 # s" by (rule sub_open_no_close)
next
  assume "46 \<notin> set key'"
  then show "repl rp cx key' = 123 # key' @ [125]" by (rule repl_no_dot)
next
  assume "46 \<notin> set sid \<and> cx sid = None"
  then show "repl rp cx (sid @ 46 # var) = 123 # (sid @ 46 # var) @ [125]"
    by (simp add: repl_split)
next
  assume "46 \<notin> set sid' \<and> cx sid' = Some e"
  then show "repl rp cx (sid' @ 46 # var') =
          (if var' = u ''ans'' then py_str rp (e_ans e)
           else if var' = u ''text'' then py_str rp (e_text e)
           else 123 # (sid' @ 46 # var') @ [125])"
    by (simp add: repl_split)
next
  assume "brace_free rp cx"
  then show "sub_template rp cx (sub_template rp cx t) = sub_template rp cx t"
    by (rule sub_idem)
qed

theorem template_substitution_witness:
  "brace_free no_repr ctx_plain \<and>
   ctx_plain (u ''s1'') = Some \<lparr> e_ans = PInt 42, e_text = PStr (u ''x'') \<rparr> \<and>
   ctx_plain (u ''s2'') = None \<and>
   sub_template no_repr ctx_plain (u ''}'') = u ''}'' \<and>
   sub_template no_repr ctx_plain (u ''{s1'') = u ''{s1'' \<and>
   sub_template no_repr ctx_plain (u ''{}{s1.ans}'') = u ''{}42'' \<and>
   sub_template no_repr ctx_plain (u ''{s2.text}{s1}{s1.answer}'') = u ''{s2.text}{s1}{s1.answer}'' \<and>
   sub_template no_repr ctx_plain (u ''a{s1.ans}b{s2.text}'') = u ''a42b{s2.text}'' \<and>
   sub_template no_repr ctx_plain (u ''a42b{s2.text}'') = u ''a42b{s2.text}''"
proof -
  note T = template_substitution [where rp = no_repr and cx = ctx_plain]
  have nil: "sub_template no_repr ctx_plain [] = []" using T by blast
  have lit: "sub_template no_repr ctx_plain (c # cs) = c # sub_template no_repr ctx_plain cs"
    if "c \<noteq> 123" for c cs
    using T [where c = c and cs = cs] that by blast
  have tok: "sub_template no_repr ctx_plain (123 # key @ 125 # rest) =
      repl no_repr ctx_plain key @ sub_template no_repr ctx_plain rest"
    if "key \<noteq> []" "125 \<notin> set key" for key rest
    using T [where key = key and rest = rest] that by blast
  have emp: "sub_template no_repr ctx_plain (123 # 125 # rest) =
      123 # 125 # sub_template no_repr ctx_plain rest" for rest
    using T [where rest' = rest] by blast
  have opn: "sub_template no_repr ctx_plain (123 # s) = 123 # s" if "125 \<notin> set s" for s
    using T [where s = s] that by blast
  have nodot: "repl no_repr ctx_plain key = 123 # key @ [125]" if "46 \<notin> set key" for key
    using T [where key' = key] that by blast
  have unk: "repl no_repr ctx_plain (sid @ 46 # var) = 123 # (sid @ 46 # var) @ [125]"
    if "46 \<notin> set sid" "ctx_plain sid = None" for sid var
    using T [where sid = sid and var = var] that by blast
  have rec: "repl no_repr ctx_plain (sid @ 46 # var) =
          (if var = u ''ans'' then py_str no_repr (e_ans e)
           else if var = u ''text'' then py_str no_repr (e_text e)
           else 123 # (sid @ 46 # var) @ [125])"
    if "46 \<notin> set sid" "ctx_plain sid = Some e" for sid var e
    using T [where sid' = sid and var' = var and e = e] that by blast
  have idem: "sub_template no_repr ctx_plain (sub_template no_repr ctx_plain t) =
      sub_template no_repr ctx_plain t" for t
    using T [where t = t] brace_free_plain by blast
  have r_ans: "repl no_repr ctx_plain (u ''s1.ans'') = u ''42''"
    using rec [of "u ''s1''" "\<lparr> e_ans = PInt 42, e_text = PStr (u ''x'') \<rparr>" "u ''ans''"]
      ctx_plain_s1 str_42 by (simp add: u_simps)
  have r_answer: "repl no_repr ctx_plain (u ''s1.answer'') = u ''{s1.answer}''"
    using rec [of "u ''s1''" "\<lparr> e_ans = PInt 42, e_text = PStr (u ''x'') \<rparr>" "u ''answer''"]
      ctx_plain_s1 by (simp add: u_simps)
  have r_s2: "repl no_repr ctx_plain (u ''s2.text'') = u ''{s2.text}''"
    using unk [of "u ''s2''" "u ''text''"] ctx_plain_s2 by (simp add: u_simps)
  have r_s1: "repl no_repr ctx_plain (u ''s1'') = u ''{s1}''"
    using nodot [of "u ''s1''"] by (simp add: u_simps)
  have w1: "sub_template no_repr ctx_plain (u ''}'') = u ''}''"
    using lit [of 125 "[]"] nil by (simp add: u_simps)
  have w2: "sub_template no_repr ctx_plain (u ''{s1'') = u ''{s1''"
    using opn [of "u ''s1''"] by (simp add: u_simps)
  have t1: "sub_template no_repr ctx_plain (u ''{s1.ans}'') = u ''42''"
    using tok [of "u ''s1.ans''" "[]"] nil r_ans by (simp add: u_simps)
  have w3: "sub_template no_repr ctx_plain (u ''{}{s1.ans}'') = u ''{}42''"
    using emp [of "u ''{s1.ans}''"] t1 by (simp add: u_simps)
  have t2: "sub_template no_repr ctx_plain (u ''{s1.answer}'') = u ''{s1.answer}''"
    using tok [of "u ''s1.answer''" "[]"] nil r_answer by (simp add: u_simps)
  have t3: "sub_template no_repr ctx_plain (u ''{s1}{s1.answer}'') = u ''{s1}{s1.answer}''"
    using tok [of "u ''s1''" "u ''{s1.answer}''"] t2 r_s1 by (simp add: u_simps)
  have w4: "sub_template no_repr ctx_plain (u ''{s2.text}{s1}{s1.answer}'') = u ''{s2.text}{s1}{s1.answer}''"
    using tok [of "u ''s2.text''" "u ''{s1}{s1.answer}''"] t3 r_s2 by (simp add: u_simps)
  have t4: "sub_template no_repr ctx_plain (u ''{s2.text}'') = u ''{s2.text}''"
    using tok [of "u ''s2.text''" "[]"] nil r_s2 by (simp add: u_simps)
  have t5: "sub_template no_repr ctx_plain (u ''b{s2.text}'') = u ''b{s2.text}''"
    using lit [of 98 "u ''{s2.text}''"] t4 by (simp add: u_simps)
  have t6: "sub_template no_repr ctx_plain (u ''{s1.ans}b{s2.text}'') = u ''42b{s2.text}''"
    using tok [of "u ''s1.ans''" "u ''b{s2.text}''"] t5 r_ans by (simp add: u_simps)
  have w5: "sub_template no_repr ctx_plain (u ''a{s1.ans}b{s2.text}'') = u ''a42b{s2.text}''"
    using lit [of 97 "u ''{s1.ans}b{s2.text}''"] t6 by (simp add: u_simps)
  have w6: "sub_template no_repr ctx_plain (u ''a42b{s2.text}'') = u ''a42b{s2.text}''"
    using idem [of "u ''a{s1.ans}b{s2.text}''"] unfolding w5 .
  from brace_free_plain ctx_plain_s1 ctx_plain_s2 w1 w2 w3 w4 w5 w6 show ?thesis by blast
qed

section \<open>Reloading the retrieval index\<close>

lemma kb_probe_not_ready:
  assumes "\<not> kb_available env \<or> meta_mtime env (resolve_kb_id env arg) = None
             \<or> index_mtime env (resolve_kb_id env arg) = None"
  shows "kb_probe env st q arg = ((False, 0), st)"
  using assms by (auto simp: kb_probe_def Let_def split: option.splits)

lemma kb_probe_ready:
  assumes "kb_available env" and "resolve_kb_id env arg = kb"
    and "meta_mtime env kb = Some mm" and "index_mtime env kb = Some mi"
  shows "kb_probe env st q arg =
           (if c_idx (cache st) = None \<or> c_kb_id (cache st) \<noteq> Some kb
               \<or> c_mt_meta (cache st) \<noteq> mm \<or> c_mt_index (cache st) \<noteq> mi
            then if load_ok env kb
                 then ((case query_top1 env (constructed st) q of
                          Inl ex \<Rightarrow> (False, 0)
                        | Inr None \<Rightarrow> (True, 0)
                        | Inr (Some score) \<Rightarrow> (True, score)),
                       \<lparr> cache = \<lparr> c_kb_id = Some kb, c_idx = Some (constructed st),
                                    c_mt_meta = mm, c_mt_index = mi \<rparr>,
                         constructed = constructed st + 1 \<rparr>)
                 else ((False, 0), st \<lparr> constructed := constructed st + 1 \<rparr>)
            else (case c_idx (cache st) of
                    None \<Rightarrow> ((False, 0), st)
                  | Some idx \<Rightarrow>
                      ((case query_top1 env idx q of
                          Inl ex \<Rightarrow> (False, 0)
                        | Inr None \<Rightarrow> (True, 0)
                        | Inr (Some score) \<Rightarrow> (True, score)), st)))"
  using assms
  by (auto simp: kb_probe_def Let_def need_reload_def probe_query_def
           split: option.splits sum.splits)

lemma a_nonempty: "u ''a'' \<noteq> []"
  by (simp add: u_simps)

lemma resolve_a: "resolve_kb_id sample_kb_env (Some (u ''a'')) = u ''a''"
  by (simp add: resolve_kb_id_def a_nonempty)

lemma b_missing: "index_mtime sample_kb_env (resolve_kb_id sample_kb_env (Some (u ''b''))) = None"
  by (simp add: resolve_kb_id_def sample_kb_env_def u_simps)

text \<open>
  Claim C5 as stated fails. With the index of \<open>a\<close> cached, a probe for \<open>b\<close>, whose
  files do not exist, differs in its id from the cached one and still loads nothing.
  And when the index fails to load, the first probe leaves the cache as it was, so the
  second probe, with the same id and unchanged modification times, constructs an index
  again.
\<close>

theorem probe_without_reload_or_reuse:
  "c_kb_id (cache kb_state_a) \<noteq> Some (u ''b'') \<and>
   kb_probe sample_kb_env kb_state_a (u ''abc'') (Some (u ''b'')) = ((False, 0), kb_state_a) \<and>
   kb_probe unloadable_kb_env kb_state_init (u ''abc'') (Some (u ''a''))
     = ((False, 0), kb_state_init \<lparr> constructed := 1 \<rparr>) \<and>
   kb_probe unloadable_kb_env (kb_state_init \<lparr> constructed := 1 \<rparr>) (u ''abc'') (Some (u ''a''))
     = ((False, 0), kb_state_init \<lparr> constructed := 2 \<rparr>)"
  by (simp add: kb_probe_def sample_kb_env_def unloadable_kb_env_def kb_state_init_def
      kb_state_a_def KB_CACHE_INIT_def need_reload_def probe_query_def resolve_kb_id_def Let_def u_simps)

text \<open>
  Claim C5, amended. A probe that finds the index class unavailable or one of the two
  files of the knowledge base missing answers "not ready" with score 0 and leaves
  the cache and the number of constructed indexes as they are. Otherwise it constructs
  a new index if and only if no index is cached, or the cached id differs from the id,
  or one of the two modification times differs from the cached one. If that index
  loads, it is the one that is cached, with the id and both times, and the one that is
  queried; if it does not load, the cache stays as it was and the answer is "not ready".
  Without a reload the state stays as it was and the cached index is queried. For two
  consecutive probes with the same id and unchanged modification times, where the index
  of the first probe loaded if it had to be loaded, an index is cached after the first
  probe with that id and those times, and the second probe leaves the state as it is,
  constructing nothing, and answers with the query to that same index.
\<close>

theorem probe_reload:
  "((\<not> kb_available env0 \<or> meta_mtime env0 (resolve_kb_id env0 arg0) = None
       \<or> index_mtime env0 (resolve_kb_id env0 arg0) = None) \<longrightarrow>
      kb_probe env0 st0 q0 arg0 = ((False, 0), st0))
   \<and> (kb_available env \<and> resolve_kb_id env arg = kb
        \<and> meta_mtime env kb = Some mm \<and> index_mtime env kb = Some mi \<longrightarrow>
        kb_probe env st q arg =
           (if c_idx (cache st) = None \<or> c_kb_id (cache st) \<noteq> Some kb
               \<or> c_mt_meta (cache st) \<noteq> mm \<or> c_mt_index (cache st) \<noteq> mi
            then if load_ok env kb
                 then ((case query_top1 env (constructed st) q of
                          Inl ex \<Rightarrow> (False, 0)
                        | Inr None \<Rightarrow> (True, 0)
                        | Inr (Some score) \<Rightarrow> (True, score)),
                       \<lparr> cache = \<lparr> c_kb_id = Some kb, c_idx = Some (constructed st),
                                    c_mt_meta = mm, c_mt_index = mi \<rparr>,
                         constructed = constructed st + 1 \<rparr>)
                 else ((False, 0), st \<lparr> constructed := constructed st + 1 \<rparr>)
            else (case c_idx (cache st) of
                    None \<Rightarrow> ((False, 0), st)
                  | Some idx \<Rightarrow>
                      ((case query_top1 env idx q of
                          Inl ex \<Rightarrow> (False, 0)
                        | Inr None \<Rightarrow> (True, 0)
                        | Inr (Some score) \<Rightarrow> (True, score)), st))))
   \<and> (kb_available env1 \<and> kb_available env2
        \<and> resolve_kb_id env1 arg1 = kb' \<and> resolve_kb_id env2 arg2 = kb'
        \<and> meta_mtime env1 kb' = Some mm' \<and> index_mtime env1 kb' = Some mi'
        \<and> meta_mtime env2 kb' = Some mm' \<and> index_mtime env2 kb' = Some mi'
        \<and> ((c_idx (cache st1) = None \<or> c_kb_id (cache st1) \<noteq> Some kb'
              \<or> c_mt_meta (cache st1) \<noteq> mm' \<or> c_mt_index (cache st1) \<noteq> mi')
             \<longrightarrow> load_ok env1 kb')
        \<and> kb_probe env1 st1 q1 arg1 = (r1, st2)
        \<and> kb_probe env2 st2 q2 arg2 = (r2, st3) \<longrightarrow>
        (\<exists>idx. c_idx (cache st2) = Some idx
               \<and> c_kb_id (cache st2) = Some kb'
               \<and> c_mt_meta (cache st2) = mm' \<and> c_mt_index (cache st2) = mi'
               \<and> st3 = st2
               \<and> r2 = (case query_top1 env2 idx q2 of
                          Inl ex \<Rightarrow> (False, 0)
                        | Inr None \<Rightarrow> (True, 0)
                        | Inr (Some score) \<Rightarrow> (True, score))))"
proof (intro conjI impI)
  assume "\<not> kb_available env0 \<or> meta_mtime env0 (resolve_kb_id env0 arg0) = None
       \<or> index_mtime env0 (resolve_kb_id env0 arg0) = None"
  then show "kb_probe env0 st0 q0 arg0 = ((False, 0), st0)" by (rule kb_probe_not_ready)
next
  assume "kb_available env \<and> resolve_kb_id env arg = kb
        \<and> meta_mtime env kb = Some mm \<and> index_mtime env kb = Some mi"
  then show "kb_probe env st q arg =
           (if c_idx (cache st) = None \<or> c_kb_id (cache st) \<noteq> Some kb
               \<or> c_mt_meta (cache st) \<noteq> mm \<or> c_mt_index (cache st) \<noteq> mi
            then if load_ok env kb
                 then ((case query_top1 env (constructed st) q of
                          Inl ex \<Rightarrow> (False, 0)
                        | Inr None \<Rightarrow> (True, 0)
                        | Inr (Some score) \<Rightarrow> (True, score)),
                       \<lparr> cache = \<lparr> c_kb_id = Some kb, c_idx = Some (constructed st),
                                    c_mt_meta = mm, c_mt_index = mi \<rparr>,
                         constructed = constructed st + 1 \<rparr>)
                 else ((False, 0), st \<lparr> constructed := constructed st + 1 \<rparr>)
            else (case c_idx (cache st) of
                    None \<Rightarrow> ((False, 0), st)
                  | Some idx \<Rightarrow>
                      ((case query_top1 env idx q of
                          Inl ex \<Rightarrow> (False, 0)
                        | Inr None \<Rightarrow> (True, 0)
                        | Inr (Some score) \<Rightarrow> (True, score)), st)))"
    by (intro kb_probe_ready) simp_all
next
  assume a: "kb_available env1 \<and> kb_available env2
        \<and> resolve_kb_id env1 arg1 = kb' \<and> resolve_kb_id env2 arg2 = kb'
        \<and> meta_mtime env1 kb' = Some mm' \<and> index_mtime env1 kb' = Some mi'
        \<and> meta_mtime env2 kb' = Some mm' \<and> index_mtime env2 kb' = Some mi'
        \<and> ((c_idx (cache st1) = None \<or> c_kb_id (cache st1) \<noteq> Some kb'
              \<or> c_mt_meta (cache st1) \<noteq> mm' \<or> c_mt_index (cache st1) \<noteq> mi')
             \<longrightarrow> load_ok env1 kb')
        \<and> kb_probe env1 st1 q1 arg1 = (r1, st2)
        \<and> kb_probe env2 st2 q2 arg2 = (r2, st3)"
  then have p1: "kb_probe env1 st1 q1 arg1 = (r1, st2)"
    and p2: "kb_probe env2 st2 q2 arg2 = (r2, st3)"
    and l: "(c_idx (cache st1) = None \<or> c_kb_id (cache st1) \<noteq> Some kb'
              \<or> c_mt_meta (cache st1) \<noteq> mm' \<or> c_mt_index (cache st1) \<noteq> mi')
             \<longrightarrow> load_ok env1 kb'"
    by blast+
  from a have h1: "kb_available env1" "resolve_kb_id env1 arg1 = kb'"
    "meta_mtime env1 kb' = Some mm'" "index_mtime env1 kb' = Some mi'"
    by blast+
  from a have h2: "kb_available env2" "resolve_kb_id env2 arg2 = kb'"
    "meta_mtime env2 kb' = Some mm'" "index_mtime env2 kb' = Some mi'"
    by blast+
  note k1 = kb_probe_ready [OF h1, of st1 q1]
  note k2 = kb_probe_ready [OF h2, of st2 q2]
  have c2: "\<exists>idx. c_idx (cache st2) = Some idx" "c_kb_id (cache st2) = Some kb'"
    "c_mt_meta (cache st2) = mm'" "c_mt_index (cache st2) = mi'"
    using p1 l unfolding k1 by (auto split: if_splits option.splits)
  then obtain idx where idx: "c_idx (cache st2) = Some idx" by blast
  have "st3 = st2 \<and> r2 = (case query_top1 env2 idx q2 of
                          Inl ex \<Rightarrow> (False, 0)
                        | Inr None \<Rightarrow> (True, 0)
                        | Inr (Some score) \<Rightarrow> (True, score))"
    using p2 c2 idx unfolding k2 by auto
  with c2 idx show "\<exists>idx. c_idx (cache st2) = Some idx
               \<and> c_kb_id (cache st2) = Some kb'
               \<and> c_mt_meta (cache st2) = mm' \<and> c_mt_index (cache st2) = mi'
               \<and> st3 = st2
               \<and> r2 = (case query_top1 env2 idx q2 of
                          Inl ex \<Rightarrow> (False, 0)
                        | Inr None \<Rightarrow> (True, 0)
                        | Inr (Some score) \<Rightarrow> (True, score))"
    by blast
qed

theorem probe_reload_witness:
  "kb_available sample_kb_env \<and>
   resolve_kb_id sample_kb_env (Some (u ''a'')) = u ''a'' \<and>
   meta_mtime sample_kb_env (u ''a'') = Some 1 \<and> index_mtime sample_kb_env (u ''a'') = Some 1 \<and>
   load_ok sample_kb_env (u ''a'') \<and>
   index_mtime sample_kb_env (resolve_kb_id sample_kb_env (Some (u ''b''))) = None \<and>
   kb_probe sample_kb_env kb_state_a (u ''abc'') (Some (u ''b'')) = ((False, 0), kb_state_a) \<and>
   kb_probe sample_kb_env kb_state_init (u ''abc'') (Some (u ''a'')) = ((True, 1 / 2), kb_state_a) \<and>
   kb_probe sample_kb_env kb_state_a (u ''xyz'') (Some (u ''a'')) = ((True, 1 / 2), kb_state_a)"
proof -
  have h1: "kb_available sample_kb_env" by (simp add: sample_kb_env_def)
  have h4: "meta_mtime sample_kb_env (u ''a'') = Some 1" by (simp add: sample_kb_env_def)
  have h5: "index_mtime sample_kb_env (u ''a'') = Some 1" by (simp add: sample_kb_env_def)
  have l: "load_ok sample_kb_env (u ''a'')" by (simp add: sample_kb_env_def)
  have qa: "query_top1 sample_kb_env idx q = Inr (Some (1 / 2))" for idx q
    by (simp add: sample_kb_env_def)
  have w1: "kb_probe sample_kb_env kb_state_a (u ''abc'') (Some (u ''b'')) = ((False, 0), kb_state_a)"
    using probe_reload [where ?env0.0 = sample_kb_env and ?arg0.0 = "Some (u ''b'')"
        and ?st0.0 = kb_state_a and ?q0.0 = "u ''abc''", THEN conjunct1] b_missing
    by blast
  have "kb_probe sample_kb_env kb_state_init (u ''abc'') (Some (u ''a'')) =
          (if c_idx (cache kb_state_init) = None \<or> c_kb_id (cache kb_state_init) \<noteq> Some (u ''a'')
               \<or> c_mt_meta (cache kb_state_init) \<noteq> 1 \<or> c_mt_index (cache kb_state_init) \<noteq> 1
            then if load_ok sample_kb_env (u ''a'')
                 then ((case query_top1 sample_kb_env (constructed kb_state_init) (u ''abc'') of
                          Inl ex \<Rightarrow> (False, 0)
                        | Inr None \<Rightarrow> (True, 0)
                        | Inr (Some score) \<Rightarrow> (True, score)),
                       \<lparr> cache = \<lparr> c_kb_id = Some (u ''a''), c_idx = Some (constructed kb_state_init),
                                    c_mt_meta = 1, c_mt_index = 1 \<rparr>,
                         constructed = constructed kb_state_init + 1 \<rparr>)
                 else ((False, 0), kb_state_init \<lparr> constructed := constructed kb_state_init + 1 \<rparr>)
            else (case c_idx (cache kb_state_init) of
                    None \<Rightarrow> ((False, 0), kb_state_init)
                  | Some idx \<Rightarrow>
                      ((case query_top1 sample_kb_env idx (u ''abc'') of
                          Inl ex \<Rightarrow> (False, 0)
                        | Inr None \<Rightarrow> (True, 0)
                        | Inr (Some score) \<Rightarrow> (True, score)), kb_state_init)))"
    using probe_reload [where env = sample_kb_env and arg = "Some (u ''a'')" and kb = "u ''a''"
        and mm = 1 and mi = 1 and st = kb_state_init and q = "u ''abc''",
        THEN conjunct2, THEN conjunct1] h1 resolve_a h4 h5
    by blast
  then have w2: "kb_probe sample_kb_env kb_state_init (u ''abc'') (Some (u ''a'')) = ((True, 1 / 2), kb_state_a)"
    by (simp add: l qa kb_state_init_def kb_state_a_def KB_CACHE_INIT_def)
  have n: "c_idx (cache kb_state_init) = None" by (simp add: kb_state_init_def KB_CACHE_INIT_def)
  have p2: "kb_probe sample_kb_env kb_state_a (u ''xyz'') (Some (u ''a'')) =
      (fst (kb_probe sample_kb_env kb_state_a (u ''xyz'') (Some (u ''a''))),
       snd (kb_probe sample_kb_env kb_state_a (u ''xyz'') (Some (u ''a''))))"
    by simp
  from probe_reload [where ?env1.0 = sample_kb_env and ?env2.0 = sample_kb_env
        and ?arg1.0 = "Some (u ''a'')" and ?arg2.0 = "Some (u ''a'')" and kb' = "u ''a''"
        and mm' = 1 and mi' = 1 and ?st1.0 = kb_state_init and ?q1.0 = "u ''abc''"
        and ?r1.0 = "(True, 1 / 2)" and ?st2.0 = kb_state_a and ?q2.0 = "u ''xyz''"
        and ?r2.0 = "fst (kb_probe sample_kb_env kb_state_a (u ''xyz'') (Some (u ''a'')))"
        and ?st3.0 = "snd (kb_probe sample_kb_env kb_state_a (u ''xyz'') (Some (u ''a'')))",
        THEN conjunct2, THEN conjunct2]
    h1 resolve_a h4 h5 l w2 p2
  have "\<exists>idx. c_idx (cache kb_state_a) = Some idx
               \<and> c_kb_id (cache kb_state_a) = Some (u ''a'')
               \<and> c_mt_meta (cache kb_state_a) = 1 \<and> c_mt_index (cache kb_state_a) = 1
               \<and> snd (kb_probe sample_kb_env kb_state_a (u ''xyz'') (Some (u ''a''))) = kb_state_a
               \<and> fst (kb_probe sample_kb_env kb_state_a (u ''xyz'') (Some (u ''a''))) =
                    (case query_top1 sample_kb_env idx (u ''xyz'') of
                          Inl ex \<Rightarrow> (False, 0)
                        | Inr None \<Rightarrow> (True, 0)
                        | Inr (Some score) \<Rightarrow> (True, score))"
    by blast
  then have "snd (kb_probe sample_kb_env kb_state_a (u ''xyz'') (Some (u ''a''))) = kb_state_a"
    and "fst (kb_probe sample_kb_env kb_state_a (u ''xyz'') (Some (u ''a''))) = (True, 1 / 2)"
    by (auto simp: qa)
  then have w3: "kb_probe sample_kb_env kb_state_a (u ''xyz'') (Some (u ''a'')) = ((True, 1 / 2), kb_state_a)"
    by (metis prod.collapse)
  from h1 resolve_a h4 h5 l b_missing w1 w2 w3 show ?thesis by blast
qed

end
